theory Spec2Isabelle
  imports Complex_Main "HOL-Library.Monad_Syntax"
begin

section \<open>NumPy values\<close>

text \<open>
  The repository computes with NumPy float64 arrays. A finite float is modelled by the
  real number it stands for, and arithmetic on finite values is exact (no rounding, no
  overflow). \<open>NonFinite\<close> stands for the IEEE values \<open>nan\<close>, \<open>inf\<close> and \<open>-inf\<close>, which NumPy
  produces, with a warning and without raising, on a division by zero, a zero base under a
  negative power, a negative base under a fractional power and a negative square root.
  Sums, differences and products with a non-finite operand are non-finite in IEEE
  arithmetic, as here. The model also answers \<open>NonFinite\<close> for a finite value divided by a
  non-finite one and for a non-finite base under a non-zero power, where IEEE arithmetic
  gives a finite result when the operand is an infinity; every divisor of the code below
  is computed from finite parameters, and a base is non-finite there only as \<open>0/0\<close>.

  Exact arithmetic leaves out the rounding of float64, which moves a result by a relative
  \<open>2\<^sup>-\<^sup>5\<^sup>3\<close> at most per operation. Where that decides a statement (the comparison of two
  formulas that are equal as real functions), the functions are given a second time with
  the rounding of every operation, in the section on double-precision rounding.
\<close>

datatype npfloat = Fin real | NonFinite

instantiation npfloat :: "{plus, minus, uminus, times, inverse}"
begin

fun plus_npfloat :: "npfloat \<Rightarrow> npfloat \<Rightarrow> npfloat" where
  "plus_npfloat (Fin a) (Fin b) = Fin (a + b)"
| "plus_npfloat _ _ = NonFinite"

fun minus_npfloat :: "npfloat \<Rightarrow> npfloat \<Rightarrow> npfloat" where
  "minus_npfloat (Fin a) (Fin b) = Fin (a - b)"
| "minus_npfloat _ _ = NonFinite"

fun uminus_npfloat :: "npfloat \<Rightarrow> npfloat" where
  "uminus_npfloat (Fin a) = Fin (- a)"
| "uminus_npfloat NonFinite = NonFinite"

fun times_npfloat :: "npfloat \<Rightarrow> npfloat \<Rightarrow> npfloat" where
  "times_npfloat (Fin a) (Fin b) = Fin (a * b)"
| "times_npfloat _ _ = NonFinite"

fun divide_npfloat :: "npfloat \<Rightarrow> npfloat \<Rightarrow> npfloat" where
  "divide_npfloat (Fin a) (Fin b) = (if b = 0 then NonFinite else Fin (a / b))"
| "divide_npfloat _ _ = NonFinite"

fun inverse_npfloat :: "npfloat \<Rightarrow> npfloat" where
  "inverse_npfloat (Fin a) = (if a = 0 then NonFinite else Fin (1 / a))"
| "inverse_npfloat NonFinite = NonFinite"

instance ..

end

text \<open>\<^verbatim>\<open>b ** p\<close> on floats (C \<^verbatim>\<open>pow\<close>): anything to the power 0 is 1; a positive base
  gives the real power; a zero base gives 0 under a positive power and \<open>inf\<close> under a
  negative one; a negative base has a real power only for an integral exponent.\<close>

definition np_power :: "npfloat \<Rightarrow> real \<Rightarrow> npfloat" where
  "np_power b p =
     (if p = 0 then Fin 1
      else case b of
        NonFinite \<Rightarrow> NonFinite
      | Fin a \<Rightarrow>
          if 0 < a then Fin (a powr p)
          else if a = 0 then (if 0 < p then Fin 0 else NonFinite)
          else if frac p = 0 then Fin (a powi \<lfloor>p\<rfloor>)
          else NonFinite)"

text \<open>\<^verbatim>\<open>np.sqrt\<close>: \<open>nan\<close> on a negative argument.\<close>

definition np_sqrt :: "npfloat \<Rightarrow> npfloat" where
  "np_sqrt v = (case v of NonFinite \<Rightarrow> NonFinite
                | Fin a \<Rightarrow> if a < 0 then NonFinite else Fin (sqrt a))"

text \<open>\<^verbatim>\<open>np.deg2rad\<close>.\<close>

definition deg2rad :: "real \<Rightarrow> real" where
  "deg2rad d = d * (pi / 180)"

text \<open>Python's \<^verbatim>\<open>int(x)\<close> on a float truncates towards zero.\<close>

definition py_int :: "real \<Rightarrow> int" where
  "py_int v = (if 0 \<le> v then \<lfloor>v\<rfloor> else \<lceil>v\<rceil>)"

datatype error = ValueError | IndexError | ZeroDivisionError

text \<open>
  \<^verbatim>\<open>np.linspace(start, stop, num)\<close> with the default \<^verbatim>\<open>endpoint=True\<close>: a negative
  \<^verbatim>\<open>num\<close> raises \<^verbatim>\<open>ValueError\<close>; otherwise the samples are \<^verbatim>\<open>arange(0, num) * step + start\<close>
  with \<^verbatim>\<open>step = (stop - start) / (num - 1)\<close> when \<^verbatim>\<open>num - 1 > 0\<close> and
  \<^verbatim>\<open>arange(0, num) * (stop - start) + start\<close> otherwise, and the last sample is overwritten
  with \<^verbatim>\<open>stop\<close> when \<^verbatim>\<open>num > 1\<close>.
\<close>

definition linspace :: "real \<Rightarrow> real \<Rightarrow> int \<Rightarrow> error + real list" where
  "linspace start stop num =
     (if num < 0 then Inl ValueError
      else
        let n = nat num;
            delta = stop - start;
            y = (if 0 < num - 1
                 then map (\<lambda>i. real i * (delta / real_of_int (num - 1)) + start) [0..<n]
                 else map (\<lambda>i. real i * delta + start) [0..<n])
        in Inr (if 1 < num then y[n - 1 := stop] else y))"

section \<open>The parabolic nozzle (\<^verbatim>\<open>base/nozzle/parabolic_nozzle.py\<close>)\<close>

record ParabolicNozzleParams =
  throat_radius :: real
  exit_radius :: real
  chamber_radius :: real
  convergent_power :: real
  divergent_power :: real

record ParabolicNozzle =
  params :: ParabolicNozzleParams
  L_convergent :: real
  L_divergent :: real

text \<open>\<^verbatim>\<open>ParabolicNozzle.__init__\<close>. The divisor \<^verbatim>\<open>np.tan(np.deg2rad(15))\<close> is a non-zero
  constant, so both lengths are finite.\<close>

definition ParabolicNozzle_init :: "ParabolicNozzleParams \<Rightarrow> ParabolicNozzle" where
  "ParabolicNozzle_init ps =
     \<lparr> params = ps,
       L_convergent = 1.5 * chamber_radius ps,
       L_divergent = 0.8 * (exit_radius ps - throat_radius ps) / tan (deg2rad 15) \<rparr>"

text \<open>The radius that \<^verbatim>\<open>_convergent_section\<close> computes at one axial position (NumPy
  evaluates the expression elementwise over the array \<^verbatim>\<open>x\<close>).\<close>

definition convergent_r :: "ParabolicNozzle \<Rightarrow> real \<Rightarrow> npfloat" where
  "convergent_r nz xi =
     (let t = (Fin xi + Fin (L_convergent nz)) / Fin (L_convergent nz)
      in Fin (chamber_radius (params nz))
         - Fin (chamber_radius (params nz) - throat_radius (params nz))
           * np_power t (convergent_power (params nz)))"

text \<open>\<^verbatim>\<open>_convergent_section\<close>.\<close>

definition convergent_section :: "ParabolicNozzle \<Rightarrow> int \<Rightarrow> error + (real list \<times> npfloat list)" where
  "convergent_section nz n_points =
     (case linspace (- L_convergent nz) 0 n_points of
        Inl e \<Rightarrow> Inl e
      | Inr x \<Rightarrow> Inr (x, map (convergent_r nz) x))"

text \<open>The radius that \<^verbatim>\<open>_divergent_section\<close> computes at one axial position.\<close>

definition divergent_r :: "ParabolicNozzle \<Rightarrow> real \<Rightarrow> npfloat" where
  "divergent_r nz xi =
     (let t = Fin xi / Fin (L_divergent nz)
      in Fin (throat_radius (params nz))
         + Fin (exit_radius (params nz) - throat_radius (params nz))
           * np_power t (divergent_power (params nz)))"

text \<open>\<^verbatim>\<open>_divergent_section\<close>.\<close>

definition divergent_section :: "ParabolicNozzle \<Rightarrow> int \<Rightarrow> error + (real list \<times> npfloat list)" where
  "divergent_section nz n_points =
     (case linspace 0 (L_divergent nz) n_points of
        Inl e \<Rightarrow> Inl e
      | Inr x \<Rightarrow> Inr (x, map (divergent_r nz) x))"

text \<open>\<^verbatim>\<open>generate_contour\<close>: \<^verbatim>\<open>x_div[1:]\<close> is \<open>drop 1\<close>, empty on an empty array.\<close>

definition generate_contour :: "ParabolicNozzle \<Rightarrow> int \<Rightarrow> error + (real list \<times> npfloat list)" where
  "generate_contour nz n_points =
     (let n_conv = py_int (real_of_int n_points * 0.4);
          n_div = n_points - n_conv
      in case convergent_section nz n_conv of
           Inl e \<Rightarrow> Inl e
         | Inr (x_conv, r_conv) \<Rightarrow>
             (case divergent_section nz n_div of
                Inl e \<Rightarrow> Inl e
              | Inr (x_div, r_div) \<Rightarrow> Inr (x_conv @ drop 1 x_div, r_conv @ drop 1 r_div)))"

text \<open>\<^verbatim>\<open>get_outer_wall\<close>.\<close>

definition get_outer_wall :: "ParabolicNozzle \<Rightarrow> int \<Rightarrow> error + (real list \<times> npfloat list)" where
  "get_outer_wall nz n_points = generate_contour nz n_points"

section \<open>Curve sections (\<^verbatim>\<open>base/nozzle/nozzle.py\<close>)\<close>

record SectionParameters =
  start_x :: real
  end_x :: real
  start_r :: real
  end_r :: real
  n_points :: int

text \<open>\<^verbatim>\<open>LinearSection\<close>. \<^verbatim>\<open>__init__\<close> computes the slope from the four parameters, which are
  declared \<^verbatim>\<open>float\<close>: a zero denominator raises \<^verbatim>\<open>ZeroDivisionError\<close>. (Were the parameters
  NumPy scalars, the quotient would be \<open>inf\<close> or \<open>nan\<close> with a warning; the statements below
  are about sections that can be built.) \<^verbatim>\<open>r_func\<close> is the function that
  \<^verbatim>\<open>get_radius_function\<close> returns, in exact arithmetic; \<open>LinearSection_r_func_f64\<close> below
  is the same function with the rounding of each operation.\<close>

record LinearSection =
  linear_params :: SectionParameters
  slope :: real

definition LinearSection_init :: "SectionParameters \<Rightarrow> error + LinearSection" where
  "LinearSection_init sp =
     (if end_x sp - start_x sp = 0 then Inl ZeroDivisionError
      else Inr \<lparr> linear_params = sp,
                 slope = (end_r sp - start_r sp) / (end_x sp - start_x sp) \<rparr>)"

definition LinearSection_r_func :: "LinearSection \<Rightarrow> real \<Rightarrow> npfloat" where
  "LinearSection_r_func s x =
     Fin (start_r (linear_params s)) + Fin (slope s) * (Fin x - Fin (start_x (linear_params s)))"

text \<open>\<^verbatim>\<open>CircularArcSection\<close>, with its radius of curvature \<^verbatim>\<open>R_c\<close> and the flag \<^verbatim>\<open>convex\<close>.
  \<^verbatim>\<open>get_radius_function\<close> also computes the chord and the sagitta \<^verbatim>\<open>h\<close>; \<^verbatim>\<open>r_func\<close> uses
  neither.\<close>

record CircularArcSection =
  arc_params :: SectionParameters
  R_c :: real
  convex :: bool

definition CircularArc_chord :: "CircularArcSection \<Rightarrow> real" where
  "CircularArc_chord s =
     (let dx = end_x (arc_params s) - start_x (arc_params s);
          dr = end_r (arc_params s) - start_r (arc_params s)
      in sqrt (dx\<^sup>2 + dr\<^sup>2))"

definition CircularArc_h :: "CircularArcSection \<Rightarrow> npfloat" where
  "CircularArc_h s =
     (let sign = (if convex s then 1 else - 1)
      in Fin (R_c s) - Fin sign * np_sqrt (Fin ((R_c s)\<^sup>2 - (CircularArc_chord s / 2)\<^sup>2)))"

definition CircularArc_r_func :: "CircularArcSection \<Rightarrow> real \<Rightarrow> npfloat" where
  "CircularArc_r_func s x =
     (let dx = end_x (arc_params s) - start_x (arc_params s);
          dr = end_r (arc_params s) - start_r (arc_params s);
          sign = (if convex s then 1 else - 1);
          t = (Fin x - Fin (start_x (arc_params s))) / Fin dx;
          x_local = t * Fin dx
      in Fin (start_r (arc_params s)) + t * Fin dr
         + Fin sign * np_sqrt (Fin ((R_c s)\<^sup>2) - np_power (x_local - Fin (dx / 2)) 2)
         - Fin sign * np_sqrt (Fin ((R_c s)\<^sup>2 - (dx / 2)\<^sup>2)))"

text \<open>\<^verbatim>\<open>HermiteSection\<close>, with the slopes \<^verbatim>\<open>dr/dx\<close> at its two ends.\<close>

record HermiteSection =
  hermite_params :: SectionParameters
  start_slope :: real
  end_slope :: real

definition Hermite_r_func :: "HermiteSection \<Rightarrow> real \<Rightarrow> npfloat" where
  "Hermite_r_func s x =
     (let dx = end_x (hermite_params s) - start_x (hermite_params s);
          t = (Fin x - Fin (start_x (hermite_params s))) / Fin dx;
          h00 = Fin 2 * np_power t 3 - Fin 3 * np_power t 2 + Fin 1;
          h10 = np_power t 3 - Fin 2 * np_power t 2 + t;
          h01 = Fin (- 2) * np_power t 3 + Fin 3 * np_power t 2;
          h11 = np_power t 3 - np_power t 2
      in h00 * Fin (start_r (hermite_params s))
         + h10 * Fin dx * Fin (start_slope s)
         + h01 * Fin (end_r (hermite_params s))
         + h11 * Fin dx * Fin (end_slope s))"

section \<open>The wedge mesh (\<^verbatim>\<open>base/templates/openfoam/system/block_mesh.py\<close>)\<close>

record BlockMeshParams =
  wedge_angle_deg :: real
  n_axial :: int
  n_radial :: int
  axial_grading :: real
  radial_grading :: real
  inlet_patch :: string
  outlet_patch :: string
  wall_patch :: string
  wedge0_patch :: string
  wedge1_patch :: string
  convert_to_meters :: real

type_synonym vertex = "npfloat \<times> npfloat \<times> npfloat"

text \<open>One pass of the loop of \<^verbatim>\<open>_wedge_points\<close> over a station \<open>(xi, ri)\<close>: each index
  array receives the current length of the vertex list just before the vertex is
  appended.\<close>

definition wedge_step ::
  "real \<Rightarrow> real \<Rightarrow> real \<times> npfloat \<Rightarrow>
   vertex list \<times> nat list \<times> nat list \<times> nat list \<times> nat list \<Rightarrow>
   vertex list \<times> nat list \<times> nat list \<times> nat list \<times> nat list" where
  "wedge_step c s st acc =
     (case st of (xi, ri) \<Rightarrow>
      case acc of (verts, idx_axis_p0, idx_wall_p0, idx_axis_p1, idx_wall_p1) \<Rightarrow>
        let a0 = idx_axis_p0 @ [length verts];
            verts1 = verts @ [(Fin xi, Fin 0, Fin 0)];
            w0 = idx_wall_p0 @ [length verts1];
            verts2 = verts1 @ [(Fin xi, ri * Fin c, (- ri) * Fin s)];
            a1 = idx_axis_p1 @ [length verts2];
            verts3 = verts2 @ [(Fin xi, Fin 0, Fin 0)];
            w1 = idx_wall_p1 @ [length verts3];
            verts4 = verts3 @ [(Fin xi, ri * Fin c, ri * Fin s)]
        in (verts4, a0, w0, a1, w1))"

text \<open>\<^verbatim>\<open>_wedge_points\<close>: \<^verbatim>\<open>zip\<close> stops at the shorter of the two arrays.\<close>

definition wedge_points ::
  "real list \<Rightarrow> npfloat list \<Rightarrow> real \<Rightarrow>
   vertex list \<times> nat list \<times> nat list \<times> nat list \<times> nat list" where
  "wedge_points x r theta_half =
     fold (wedge_step (cos theta_half) (sin theta_half)) (zip x r) ([], [], [], [], [])"

text \<open>Reading a Python list at a non-negative index: \<open>None\<close> is \<^verbatim>\<open>IndexError\<close>.\<close>

definition py_get :: "'a list \<Rightarrow> nat \<Rightarrow> 'a option" where
  "py_get xs i = (if i < length xs then Some (xs ! i) else None)"

text \<open>A block is the line \<^verbatim>\<open>hex (v0 ... v7) (1 n_radial 1) simpleGrading (ga gr 1)\<close>; a face
  is the line \<^verbatim>\<open>(a b c d)\<close>. The dictionary text that the function returns lists them in
  this order under the five patch names.\<close>

record hex_block =
  hex :: "nat list"
  cells :: "int \<times> int \<times> int"
  simpleGrading :: "real \<times> real \<times> real"

type_synonym face = "nat list"

record BlockMesh =
  vertices :: "vertex list"
  blocks :: "hex_block list"
  inlet_faces :: "face list"
  outlet_faces :: "face list"
  wall_faces :: "face list"
  wedge0_faces :: "face list"
  wedge1_faces :: "face list"

text \<open>The body of the first loop of \<^verbatim>\<open>generate_block_mesh_dict\<close>, for the axial segment \<open>i\<close>.\<close>

definition block_at ::
  "BlockMeshParams \<Rightarrow> nat list \<Rightarrow> nat list \<Rightarrow> nat list \<Rightarrow> nat list \<Rightarrow> nat \<Rightarrow> hex_block option" where
  "block_at ps a0 w0 a1 w1 i =
     do {
       v0 \<leftarrow> py_get a0 i;
       v1 \<leftarrow> py_get a0 (i + 1);
       v2 \<leftarrow> py_get w0 (i + 1);
       v3 \<leftarrow> py_get w0 i;
       v4 \<leftarrow> py_get a1 i;
       v5 \<leftarrow> py_get a1 (i + 1);
       v6 \<leftarrow> py_get w1 (i + 1);
       v7 \<leftarrow> py_get w1 i;
       Some \<lparr> hex = [v0, v1, v2, v3, v4, v5, v6, v7],
              cells = (1, n_radial ps, 1),
              simpleGrading = (axial_grading ps, radial_grading ps, 1) \<rparr>
     }"

text \<open>The body of the second loop: the wall face and the two wedge faces of segment \<open>i\<close>.\<close>

definition strip_faces ::
  "nat list \<Rightarrow> nat list \<Rightarrow> nat list \<Rightarrow> nat list \<Rightarrow> nat \<Rightarrow> (face \<times> face \<times> face) option" where
  "strip_faces a0 w0 a1 w1 i =
     do {
       w0i \<leftarrow> py_get w0 i;
       w0j \<leftarrow> py_get w0 (i + 1);
       w1j \<leftarrow> py_get w1 (i + 1);
       w1i \<leftarrow> py_get w1 i;
       a0i \<leftarrow> py_get a0 i;
       a0j \<leftarrow> py_get a0 (i + 1);
       a1j \<leftarrow> py_get a1 (i + 1);
       a1i \<leftarrow> py_get a1 i;
       Some ([w0i, w0j, w1j, w1i], [a0i, a0j, w0j, w0i], [a1j, a1i, w1i, w1j])
     }"

text \<open>\<^verbatim>\<open>generate_block_mesh_dict\<close>. \<^verbatim>\<open>range(len(x) - 1)\<close> is empty when \<^verbatim>\<open>len(x)\<close> is 0 or 1;
  the inlet face reads index 0 of the four index arrays.\<close>

definition generate_block_mesh_dict :: "ParabolicNozzle \<Rightarrow> BlockMeshParams \<Rightarrow> error + BlockMesh" where
  "generate_block_mesh_dict nozzle ps =
     (case get_outer_wall nozzle (n_axial ps + 1) of
        Inl e \<Rightarrow> Inl e
      | Inr (x, r) \<Rightarrow>
          let theta = deg2rad (wedge_angle_deg ps);
              theta_half = 0.5 * theta
          in case wedge_points x r theta_half of (verts, a0, w0, a1, w1) \<Rightarrow>
             (case
                do {
                  bs \<leftarrow> those (map (block_at ps a0 w0 a1 w1) [0..<length x - 1]);
                  i0 \<leftarrow> py_get a0 0;
                  i1 \<leftarrow> py_get a1 0;
                  i2 \<leftarrow> py_get w1 0;
                  i3 \<leftarrow> py_get w0 0;
                  let j = length x - 1;
                  o0 \<leftarrow> py_get a0 j;
                  o1 \<leftarrow> py_get w0 j;
                  o2 \<leftarrow> py_get w1 j;
                  o3 \<leftarrow> py_get a1 j;
                  fs \<leftarrow> those (map (strip_faces a0 w0 a1 w1) [0..<length x - 1]);
                  Some \<lparr> vertices = verts,
                         blocks = bs,
                         inlet_faces = [[i0, i1, i2, i3]],
                         outlet_faces = [[o0, o1, o2, o3]],
                         wall_faces = map fst fs,
                         wedge0_faces = map (\<lambda>f. fst (snd f)) fs,
                         wedge1_faces = map (\<lambda>f. snd (snd f)) fs \<rparr>
                }
              of None \<Rightarrow> Inl IndexError
               | Some m \<Rightarrow> Inr m))"

section \<open>Closed forms and example inputs\<close>

text \<open>The samples of \<^verbatim>\<open>np.linspace(a, b, n)\<close> for a count \<open>n\<close> that is not negative.\<close>

definition linspace_pts :: "real \<Rightarrow> real \<Rightarrow> nat \<Rightarrow> real list" where
  "linspace_pts a b n = map (\<lambda>i. a + real i * ((b - a) / real (n - 1))) [0..<n]"


text \<open>The cubic that \<^verbatim>\<open>HermiteSection\<close> evaluates when its two ends differ in \<open>x\<close>.\<close>

definition hermite_poly :: "HermiteSection \<Rightarrow> real \<Rightarrow> real" where
  "hermite_poly s x =
     (let dx = end_x (hermite_params s) - start_x (hermite_params s);
          t = (x - start_x (hermite_params s)) / dx
      in (2 * t ^ 3 - 3 * t\<^sup>2 + 1) * start_r (hermite_params s)
         + (t ^ 3 - 2 * t\<^sup>2 + t) * dx * start_slope s
         + (- 2 * t ^ 3 + 3 * t\<^sup>2) * end_r (hermite_params s)
         + (t ^ 3 - t\<^sup>2) * dx * end_slope s)"

text \<open>A Hermite section from \<open>(0, 1)\<close> to \<open>(2, 3)\<close> with end slopes \<open>1/2\<close> and \<open>1/4\<close>.\<close>

definition hermite_example :: HermiteSection where
  "hermite_example =
     \<lparr> hermite_params = \<lparr> start_x = 0, end_x = 2, start_r = 1, end_r = 3, n_points = 50 \<rparr>,
       start_slope = 1 / 2, end_slope = 1 / 4 \<rparr>"

text \<open>The two arrays that \<^verbatim>\<open>generate_contour\<close> returns for \<open>n\<close> points, \<open>n\<close> not negative:
  \<open>(2 * n) div 5\<close> is \<^verbatim>\<open>int(n * 0.4)\<close>.\<close>

definition contour_x :: "ParabolicNozzle \<Rightarrow> int \<Rightarrow> real list" where
  "contour_x nz n =
     linspace_pts (- L_convergent nz) 0 (nat ((2 * n) div 5))
     @ drop 1 (linspace_pts 0 (L_divergent nz) (nat (n - (2 * n) div 5)))"

definition contour_r :: "ParabolicNozzle \<Rightarrow> int \<Rightarrow> npfloat list" where
  "contour_r nz n =
     map (convergent_r nz) (linspace_pts (- L_convergent nz) 0 (nat ((2 * n) div 5)))
     @ drop 1 (map (divergent_r nz) (linspace_pts 0 (L_divergent nz) (nat (n - (2 * n) div 5))))"

text \<open>The parameters of the example in \<^verbatim>\<open>parabolic_nozzle.py\<close>.\<close>

definition example_params :: ParabolicNozzleParams where
  "example_params =
     \<lparr> throat_radius = 0.05, exit_radius = 0.15, chamber_radius = 0.075,
       convergent_power = 0.6, divergent_power = 0.8 \<rparr>"

text \<open>A conical nozzle (both powers 1) and the two linear sections it is compared with;
  parameters with a negative convergent power.\<close>

definition conical_params :: ParabolicNozzleParams where
  "conical_params =
     \<lparr> throat_radius = 1, exit_radius = 3, chamber_radius = 2,
       convergent_power = 1, divergent_power = 1 \<rparr>"

definition negative_power_params :: ParabolicNozzleParams where
  "negative_power_params =
     \<lparr> throat_radius = 0.05, exit_radius = 0.15, chamber_radius = 0.075,
       convergent_power = - 1, divergent_power = 0.8 \<rparr>"

definition conical_lc :: LinearSection where
  "conical_lc =
     \<lparr> linear_params = \<lparr> start_x = - 3, end_x = 0, start_r = 2, end_r = 1, n_points = 50 \<rparr>,
       slope = - 1 / 3 \<rparr>"

definition conical_ld :: LinearSection where
  "conical_ld =
     \<lparr> linear_params = \<lparr> start_x = 0, end_x = 1.6 / tan (deg2rad 15), start_r = 1, end_r = 3,
                          n_points = 50 \<rparr>,
       slope = 2 / (1.6 / tan (deg2rad 15)) \<rparr>"

text \<open>A convex arc section from \<open>(0, 0)\<close> to \<open>(6, 8)\<close>: the chord is 10 and the radius of
  curvature is 5, half the chord.\<close>

definition arc_example :: CircularArcSection where
  "arc_example =
     \<lparr> arc_params = \<lparr> start_x = 0, end_x = 6, start_r = 0, end_r = 8, n_points = 50 \<rparr>,
       R_c = 5, convex = True \<rparr>"

text \<open>The four vertices of one station, the block and the three faces of one axial
  segment, and the mesh that \<^verbatim>\<open>generate_block_mesh_dict\<close> builds from a contour that is not
  empty, all in closed form: station \<open>i\<close> owns the vertex indices \<open>4 i\<close> to \<open>4 i + 3\<close>.\<close>

definition station_verts :: "real \<Rightarrow> real \<Rightarrow> real \<times> npfloat \<Rightarrow> vertex list" where
  "station_verts c s st =
     (case st of (xi, ri) \<Rightarrow>
        [(Fin xi, Fin 0, Fin 0), (Fin xi, ri * Fin c, (- ri) * Fin s),
         (Fin xi, Fin 0, Fin 0), (Fin xi, ri * Fin c, ri * Fin s)])"

definition segment_block :: "BlockMeshParams \<Rightarrow> nat \<Rightarrow> hex_block" where
  "segment_block ps i =
     \<lparr> hex = [4 * i, 4 * (i + 1), 4 * (i + 1) + 1, 4 * i + 1,
              4 * i + 2, 4 * (i + 1) + 2, 4 * (i + 1) + 3, 4 * i + 3],
       cells = (1, n_radial ps, 1),
       simpleGrading = (axial_grading ps, radial_grading ps, 1) \<rparr>"

definition segment_faces :: "nat \<Rightarrow> face \<times> face \<times> face" where
  "segment_faces i =
     ([4 * i + 1, 4 * (i + 1) + 1, 4 * (i + 1) + 3, 4 * i + 3],
      [4 * i, 4 * (i + 1), 4 * (i + 1) + 1, 4 * i + 1],
      [4 * (i + 1) + 2, 4 * i + 2, 4 * i + 3, 4 * (i + 1) + 3])"

definition contour_mesh :: "BlockMeshParams \<Rightarrow> real list \<Rightarrow> npfloat list \<Rightarrow> BlockMesh" where
  "contour_mesh ps x r =
     (let n = length x; j = n - 1;
          theta_half = 0.5 * deg2rad (wedge_angle_deg ps)
      in \<lparr> vertices = concat (map (station_verts (cos theta_half) (sin theta_half)) (zip x r)),
           blocks = map (segment_block ps) [0..<n - 1],
           inlet_faces = [[0, 2, 3, 1]],
           outlet_faces = [[4 * j, 4 * j + 1, 4 * j + 3, 4 * j + 2]],
           wall_faces = map (\<lambda>i. fst (segment_faces i)) [0..<n - 1],
           wedge0_faces = map (\<lambda>i. fst (snd (segment_faces i))) [0..<n - 1],
           wedge1_faces = map (\<lambda>i. snd (snd (segment_faces i))) [0..<n - 1] \<rparr>)"

text \<open>The default \<^verbatim>\<open>BlockMeshParams\<close>, and nozzle parameters with \<open>exit_radius = throat_radius\<close>,
  for which the divergent length is 0.\<close>

definition default_mesh_params :: BlockMeshParams where
  "default_mesh_params =
     \<lparr> wedge_angle_deg = 5, n_axial = 200, n_radial = 50,
       axial_grading = 1, radial_grading = 1,
       inlet_patch = ''inlet'', outlet_patch = ''outlet'', wall_patch = ''wall'',
       wedge0_patch = ''wedge0'', wedge1_patch = ''wedge1'',
       convert_to_meters = 1 \<rparr>"

definition degenerate_params :: ParabolicNozzleParams where
  "degenerate_params =
     \<lparr> throat_radius = 0.05, exit_radius = 0.05, chamber_radius = 0.075,
       convergent_power = 0.6, divergent_power = 0.8 \<rparr>"

text \<open>Orientation of a face. \<open>plane_swap\<close> sends the index of a plane-0 vertex to the index
  of the plane-1 vertex of the same station. The normal of a quadrilateral face is the cross
  product of its diagonals, which follows the right-hand rule for the order of its vertices;
  a face of a block faces outward when that normal points away from the centroid of the
  block, and inward when it points towards it.\<close>

definition plane_swap :: "nat \<Rightarrow> nat" where
  "plane_swap k = k + 2"

definition vsub :: "vertex \<Rightarrow> vertex \<Rightarrow> vertex" where
  "vsub p q = (case p of (px, py, pz) \<Rightarrow> case q of (qx, qy, qz) \<Rightarrow> (px - qx, py - qy, pz - qz))"

definition vadd :: "vertex \<Rightarrow> vertex \<Rightarrow> vertex" where
  "vadd p q = (case p of (px, py, pz) \<Rightarrow> case q of (qx, qy, qz) \<Rightarrow> (px + qx, py + qy, pz + qz))"

definition cross :: "vertex \<Rightarrow> vertex \<Rightarrow> vertex" where
  "cross p q =
     (case p of (px, py, pz) \<Rightarrow> case q of (qx, qy, qz) \<Rightarrow>
        (py * qz - pz * qy, pz * qx - px * qz, px * qy - py * qx))"

definition dot :: "vertex \<Rightarrow> vertex \<Rightarrow> npfloat" where
  "dot p q = (case p of (px, py, pz) \<Rightarrow> case q of (qx, qy, qz) \<Rightarrow> px * qx + py * qy + pz * qz)"

definition centroid :: "vertex list \<Rightarrow> vertex" where
  "centroid ps =
     (case fold vadd ps (Fin 0, Fin 0, Fin 0) of (sx, sy, sz) \<Rightarrow>
        (sx / Fin (real (length ps)), sy / Fin (real (length ps)), sz / Fin (real (length ps))))"

definition face_normal :: "vertex list \<Rightarrow> face \<Rightarrow> vertex" where
  "face_normal verts f =
     cross (vsub (verts ! (f ! 2)) (verts ! (f ! 0))) (vsub (verts ! (f ! 3)) (verts ! (f ! 1)))"

definition face_flux :: "vertex list \<Rightarrow> hex_block \<Rightarrow> face \<Rightarrow> npfloat" where
  "face_flux verts b f =
     dot (face_normal verts f)
         (vsub (centroid (map (\<lambda>k. verts ! k) f)) (centroid (map (\<lambda>k. verts ! k) (hex b))))"

definition faces_outward :: "vertex list \<Rightarrow> hex_block \<Rightarrow> face \<Rightarrow> bool" where
  "faces_outward verts b f = (case face_flux verts b f of Fin d \<Rightarrow> 0 < d | NonFinite \<Rightarrow> False)"

definition faces_inward :: "vertex list \<Rightarrow> hex_block \<Rightarrow> face \<Rightarrow> bool" where
  "faces_inward verts b f = (case face_flux verts b f of Fin d \<Rightarrow> d < 0 | NonFinite \<Rightarrow> False)"

section \<open>Double-precision rounding\<close>

text \<open>
  Each float64 operation of NumPy and of Python returns the exact result rounded to the
  nearest double, ties going to the even significand (IEEE 754 round-to-nearest-even). For
  \<open>2\<^sup>e \<le> \<bar>x\<bar> < 2\<^sup>e\<^sup>+\<^sup>1\<close> the doubles next to \<open>x\<close> are the integer multiples of \<open>2\<^sup>e\<^sup>-\<^sup>5\<^sup>2\<close>; below
  \<open>2\<^sup>-\<^sup>1\<^sup>0\<^sup>2\<^sup>2\<close> the spacing stays \<open>2\<^sup>-\<^sup>1\<^sup>0\<^sup>7\<^sup>4\<close> (subnormal numbers), and a rounded magnitude of
  \<open>2\<^sup>1\<^sup>0\<^sup>2\<^sup>4\<close> or more is an infinity. \<open>fl\<close> rounds the exact result of an operation of the
  model above, so that \<open>fl (a + b)\<close> is the float64 sum of the doubles \<open>a\<close> and \<open>b\<close>. The sign
  of a zero is not modelled.
\<close>

definition round_half_even :: "real \<Rightarrow> int" where
  "round_half_even q =
     (let f = \<lfloor>q\<rfloor>; d = q - of_int f
      in if d < 1 / 2 then f else if 1 / 2 < d then f + 1 else if even f then f else f + 1)"

definition f64 :: "real \<Rightarrow> npfloat" where
  "f64 x =
     (if x = 0 then Fin 0
      else let e = max \<lfloor>log 2 \<bar>x\<bar>\<rfloor> (- 1022);
               y = of_int (round_half_even (x / 2 powi (e - 52))) * 2 powi (e - 52)
           in if 2 ^ 1024 \<le> \<bar>y\<bar> then NonFinite else Fin y)"

definition fl :: "npfloat \<Rightarrow> npfloat" where
  "fl v = (case v of Fin x \<Rightarrow> f64 x | NonFinite \<Rightarrow> NonFinite)"

text \<open>
  \<^verbatim>\<open>np.linspace\<close> in double precision, on doubles \<^verbatim>\<open>start\<close> and \<^verbatim>\<open>stop\<close>: every operation of
  \<^verbatim>\<open>arange(0, num) * step + start\<close> rounds. When \<^verbatim>\<open>step\<close> is zero NumPy computes
  \<^verbatim>\<open>arange(0, num) / (num - 1) * (stop - start)\<close> instead.
\<close>

definition linspace_f64 :: "real \<Rightarrow> real \<Rightarrow> int \<Rightarrow> error + npfloat list" where
  "linspace_f64 start stop num =
     (if num < 0 then Inl ValueError
      else
        let n = nat num;
            delta = fl (Fin stop - Fin start);
            d = Fin (real_of_int (num - 1));
            step = fl (delta / d);
            y = (if 0 < num - 1
                 then (if step = Fin 0
                       then map (\<lambda>i. fl (fl (fl (Fin (real i) / d) * delta) + Fin start)) [0..<n]
                       else map (\<lambda>i. fl (fl (Fin (real i) * step) + Fin start)) [0..<n])
                 else map (\<lambda>i. fl (fl (Fin (real i) * delta) + Fin start)) [0..<n])
        in Inr (if 1 < num then y[n - 1 := Fin stop] else y))"

text \<open>
  \<^verbatim>\<open>_convergent_section\<close> in double precision for \<^verbatim>\<open>convergent_power = 1\<close>, where \<^verbatim>\<open>t ** 1.0\<close> is
  \<^verbatim>\<open>t\<close> itself; the fields of the nozzle are doubles.
\<close>

definition convergent_r_unit_f64 :: "ParabolicNozzle \<Rightarrow> npfloat \<Rightarrow> npfloat" where
  "convergent_r_unit_f64 nz xi =
     (let t = fl (fl (xi + Fin (L_convergent nz)) / Fin (L_convergent nz))
      in fl (Fin (chamber_radius (params nz))
             - fl (fl (Fin (chamber_radius (params nz)) - Fin (throat_radius (params nz))) * t)))"

definition convergent_section_unit_f64 ::
  "ParabolicNozzle \<Rightarrow> int \<Rightarrow> error + (npfloat list \<times> npfloat list)" where
  "convergent_section_unit_f64 nz num =
     (case linspace_f64 (- L_convergent nz) 0 num of
        Inl e \<Rightarrow> Inl e
      | Inr x \<Rightarrow> Inr (x, map (convergent_r_unit_f64 nz) x))"

text \<open>
  \<^verbatim>\<open>LinearSection\<close> in double precision: the slope that \<^verbatim>\<open>__init__\<close> computes from doubles
  (\<^verbatim>\<open>end_x - start_x\<close> rounds to zero only when the two are equal), and \<^verbatim>\<open>r_func\<close>.
\<close>

definition LinearSection_slope_f64 :: "SectionParameters \<Rightarrow> error + npfloat" where
  "LinearSection_slope_f64 sp =
     (if end_x sp - start_x sp = 0 then Inl ZeroDivisionError
      else Inr (fl (fl (Fin (end_r sp) - Fin (start_r sp)) / fl (Fin (end_x sp) - Fin (start_x sp)))))"

definition LinearSection_r_func_f64 :: "SectionParameters \<Rightarrow> npfloat \<Rightarrow> npfloat \<Rightarrow> npfloat" where
  "LinearSection_r_func_f64 sp sl x = fl (Fin (start_r sp) + fl (sl * fl (x - Fin (start_x sp))))"

text \<open>The linear section of the convergent branch of the conical nozzle.\<close>

definition conical_convergent_params :: SectionParameters where
  "conical_convergent_params =
     \<lparr> start_x = - 3, end_x = 0, start_r = 2, end_r = 1, n_points = 7 \<rparr>"


section \<open>Arithmetic of finite values\<close>

lemma np_power_Fin_nat: "0 < n \<Longrightarrow> np_power (Fin a) (real n) = Fin (a ^ n)"
proof -
  assume n: "0 < n"
  consider "0 < a" | "a = 0" | "a < 0" by linarith
  then show ?thesis
  proof cases
    case 1 then show ?thesis using n by (simp add: np_power_def powr_realpow)
  next
    case 2 then show ?thesis using n by (simp add: np_power_def)
  next
    case 3 then show ?thesis using n by (simp add: np_power_def)
  qed
qed

lemma np_power_Fin_2: "np_power (Fin a) 2 = Fin (a\<^sup>2)"
  using np_power_Fin_nat [of 2 a] by simp

lemma np_power_Fin_3: "np_power (Fin a) 3 = Fin (a ^ 3)"
  using np_power_Fin_nat [of 3 a] by simp

lemma np_power_Fin_one: "np_power (Fin 1) p = Fin 1"
  by (simp add: np_power_def)

lemma np_power_Fin_zero_pos: "0 < p \<Longrightarrow> np_power (Fin 0) p = Fin 0"
  by (simp add: np_power_def)

lemma np_power_Fin_zero_neg: "p < 0 \<Longrightarrow> np_power (Fin 0) p = NonFinite"
  by (simp add: np_power_def)

lemma np_power_one: "np_power t 1 = t"
  by (cases t) (auto simp: np_power_def)


section \<open>Sampling with \<^verbatim>\<open>linspace\<close>\<close>

lemma linspace_neg: "num < 0 \<Longrightarrow> linspace a b num = Inl ValueError"
  by (simp add: linspace_def)

lemma linspace_eq: "linspace a b (int n) = Inr (linspace_pts a b n)"
proof -
  consider "n = 0" | "n = 1" | "2 \<le> n" by linarith
  then show ?thesis
  proof cases
    case 1 then show ?thesis by (simp add: linspace_def linspace_pts_def)
  next
    case 2 then show ?thesis by (simp add: linspace_def linspace_pts_def)
  next
    case 3
    then have n1: "real (n - 1) \<noteq> 0" and eq: "real_of_int (int n - 1) = real (n - 1)" by auto
    let ?y = "map (\<lambda>i. real i * ((b - a) / real (n - 1)) + a) [0..<n]"
    have last: "?y ! (n - 1) = b" using 3 n1 by (simp add: field_simps)
    have "?y[n - 1 := b] = ?y" using last by (metis list_update_id)
    moreover have "?y = linspace_pts a b n" by (simp add: linspace_pts_def add.commute)
    ultimately show ?thesis using 3 by (simp add: linspace_def Let_def eq)
  qed
qed

lemma linspace_nonneg: "0 \<le> num \<Longrightarrow> linspace a b num = Inr (linspace_pts a b (nat num))"
  using linspace_eq [of a b "nat num"] by simp

lemma length_linspace_pts [simp]: "length (linspace_pts a b n) = n"
  by (simp add: linspace_pts_def)

lemma nth_linspace_pts: "i < n \<Longrightarrow> linspace_pts a b n ! i = a + real i * ((b - a) / real (n - 1))"
  by (simp add: linspace_pts_def)

lemma linspace_pts_first: "0 < n \<Longrightarrow> linspace_pts a b n ! 0 = a"
  by (simp add: nth_linspace_pts)

lemma linspace_pts_last: "2 \<le> n \<Longrightarrow> linspace_pts a b n ! (n - 1) = b"
  by (simp add: nth_linspace_pts)

lemma affine_pts_sorted:
  fixes a d :: real
  shows "0 < d \<Longrightarrow> sorted_wrt (<) (map (\<lambda>i. a + real i * d) [0..<n])"
  by (simp add: sorted_wrt_map sorted_wrt_iff_nth_less)

lemma step_pos: "a < b \<Longrightarrow> 2 \<le> n \<Longrightarrow> 0 < (b - a) / real (n - 1)"
  by simp

lemma linspace_pts_sorted: "a < b \<Longrightarrow> sorted_wrt (<) (linspace_pts a b n)"
proof -
  assume ab: "a < b"
  show ?thesis
  proof (cases "2 \<le> n")
    case True
    show ?thesis unfolding linspace_pts_def
      by (rule affine_pts_sorted [OF step_pos [OF ab True]])
  next
    case False
    then have "n = 0 \<or> n = 1" by linarith
    then show ?thesis by (auto simp: linspace_pts_def)
  qed
qed

lemma affine_pts_bounds:
  fixes a d :: real
  assumes "0 \<le> d" "i \<le> m"
  shows "a \<le> a + real i * d \<and> a + real i * d \<le> a + real m * d"
proof -
  have "real i * d \<le> real m * d" using assms by (intro mult_right_mono) simp_all
  moreover have "0 \<le> real i * d" using assms by simp
  ultimately show ?thesis by simp
qed

lemma linspace_pts_bounds:
  assumes "a \<le> b" "x \<in> set (linspace_pts a b n)"
  shows "a \<le> x \<and> x \<le> b"
proof -
  define d where "d = (b - a) / real (n - 1)"
  obtain i where i: "i < n" and x: "x = a + real i * d"
    using assms(2) by (auto simp: linspace_pts_def d_def)
  show ?thesis
  proof (cases "2 \<le> n")
    case True
    then have pos: "0 < real (n - 1)" by simp
    have d0: "0 \<le> d" unfolding d_def using assms(1) pos by (intro divide_nonneg_pos) simp_all
    have top: "a + real (n - 1) * d = b" unfolding d_def using pos by simp
    have "i \<le> n - 1" using i by simp
    from affine_pts_bounds [OF d0 this, of a] show ?thesis using x top by simp
  next
    case False
    then have "i = 0" using i by linarith
    then show ?thesis using x assms(1) by simp
  qed
qed

lemma linspace_pts_tail_pos:
  assumes "0 < b" "x \<in> set (drop 1 (linspace_pts 0 b n))"
  shows "0 < x"
proof -
  define d where "d = (b - 0) / real (n - 1)"
  obtain j where j: "j < n - 1" and x: "x = linspace_pts 0 b n ! (j + 1)"
    using assms(2) by (auto simp: in_set_conv_nth)
  then have n2: "2 \<le> n" by linarith
  have d0: "0 < d" unfolding d_def by (rule step_pos [OF assms(1) n2])
  have "x = 0 + real (j + 1) * d" using x j unfolding d_def by (simp only: nth_linspace_pts less_diff_conv)
  then show ?thesis using d0 by simp
qed

lemma py_int_two_fifths: "0 \<le> n \<Longrightarrow> py_int (real_of_int n * 0.4) = (2 * n) div 5"
proof -
  assume n: "0 \<le> n"
  have "real_of_int n * 0.4 = real_of_int (2 * n) / real_of_int 5" by simp
  then have "\<lfloor>real_of_int n * 0.4\<rfloor> = (2 * n) div 5"
    by (simp only: floor_divide_of_int_eq)
  then show ?thesis using n by (simp add: py_int_def)
qed


section \<open>The contour of the parabolic nozzle\<close>

lemma tan_15_pos: "0 < tan (deg2rad 15)"
proof -
  have "0 < deg2rad 15" by (simp add: deg2rad_def)
  moreover have "deg2rad 15 < pi / 2" by (simp add: deg2rad_def)
  ultimately show ?thesis by (rule tan_gt_zero)
qed

lemma L_convergent_init [simp]:
  "L_convergent (ParabolicNozzle_init ps) = 1.5 * chamber_radius ps"
  by (simp add: ParabolicNozzle_init_def)

lemma L_divergent_init [simp]:
  "L_divergent (ParabolicNozzle_init ps) = 0.8 * (exit_radius ps - throat_radius ps) / tan (deg2rad 15)"
  by (simp add: ParabolicNozzle_init_def)

lemma params_init [simp]: "params (ParabolicNozzle_init ps) = ps"
  by (simp add: ParabolicNozzle_init_def)

lemma L_divergent_pos:
  "throat_radius ps < exit_radius ps \<Longrightarrow> 0 < L_divergent (ParabolicNozzle_init ps)"
  using tan_15_pos by simp

lemma convergent_section_eq:
  "0 \<le> n \<Longrightarrow> convergent_section nz n =
     Inr (linspace_pts (- L_convergent nz) 0 (nat n),
          map (convergent_r nz) (linspace_pts (- L_convergent nz) 0 (nat n)))"
  by (simp add: convergent_section_def linspace_nonneg)

lemma divergent_section_eq:
  "0 \<le> n \<Longrightarrow> divergent_section nz n =
     Inr (linspace_pts 0 (L_divergent nz) (nat n),
          map (divergent_r nz) (linspace_pts 0 (L_divergent nz) (nat n)))"
  by (simp add: divergent_section_def linspace_nonneg)

lemma two_fifths_bounds: "0 \<le> (n::int) \<Longrightarrow> 0 \<le> (2 * n) div 5 \<and> 0 \<le> n - (2 * n) div 5"
  by presburger

lemma generate_contour_eq:
  assumes "0 \<le> n"
  shows "generate_contour nz n = Inr (contour_x nz n, contour_r nz n)"
proof -
  have a: "0 \<le> (2 * n) div 5" and b: "0 \<le> n - (2 * n) div 5"
    using two_fifths_bounds [OF assms] by simp_all
  show ?thesis
    unfolding generate_contour_def Let_def py_int_two_fifths [OF assms]
    by (simp add: convergent_section_eq [OF a] divergent_section_eq [OF b]
        contour_x_def contour_r_def)
qed

lemma length_contour_x: "1 \<le> n \<Longrightarrow> length (contour_x nz n) = nat (n - 1)"
proof -
  assume n: "1 \<le> n"
  have "1 \<le> n - (2 * n) div 5" using n by presburger
  moreover have "0 \<le> (2 * n) div 5" using n by presburger
  ultimately show ?thesis by (simp add: contour_x_def)
qed

lemma length_contour_r: "length (contour_r nz n) = length (contour_x nz n)"
  by (simp add: contour_x_def contour_r_def)

lemma np_power_unit:
  assumes "0 \<le> t" "t \<le> 1" "0 < p"
  shows "\<exists>u. np_power (Fin t) p = Fin u \<and> 0 \<le> u \<and> u \<le> 1"
proof (cases "t = 0")
  case True
  then show ?thesis using assms by (simp add: np_power_def)
next
  case False
  then have t: "0 < t" using assms by simp
  have "t powr p \<le> 1 powr p" using assms by (intro powr_mono2) simp_all
  then show ?thesis using t assms by (simp add: np_power_def)
qed

lemma convergent_r_bounds:
  assumes L: "0 < L_convergent nz" and x: "- L_convergent nz \<le> x" "x \<le> 0"
    and p: "0 < convergent_power (params nz)"
    and tc: "throat_radius (params nz) \<le> chamber_radius (params nz)"
  shows "\<exists>v. convergent_r nz x = Fin v \<and> throat_radius (params nz) \<le> v
              \<and> v \<le> chamber_radius (params nz)"
proof -
  define t where "t = (x + L_convergent nz) / L_convergent nz"
  have t0: "0 \<le> t" and t1: "t \<le> 1" using L x by (simp_all add: t_def)
  obtain u where u: "np_power (Fin t) (convergent_power (params nz)) = Fin u" "0 \<le> u" "u \<le> 1"
    using np_power_unit [OF t0 t1 p] by blast
  define D where "D = chamber_radius (params nz) - throat_radius (params nz)"
  have D0: "0 \<le> D" using tc by (simp add: D_def)
  have r: "convergent_r nz x = Fin (chamber_radius (params nz) - D * u)"
    using L u(1) by (simp add: convergent_r_def Let_def t_def D_def)
  have "0 \<le> D * u" using D0 u(2) by simp
  moreover have "D * u \<le> D * 1" using D0 u(3) by (intro mult_left_mono) simp_all
  ultimately show ?thesis using r by (auto simp: D_def)
qed

lemma divergent_r_bounds:
  assumes L: "0 < L_divergent nz" and x: "0 \<le> x" "x \<le> L_divergent nz"
    and p: "0 < divergent_power (params nz)"
    and te: "throat_radius (params nz) \<le> exit_radius (params nz)"
  shows "\<exists>v. divergent_r nz x = Fin v \<and> throat_radius (params nz) \<le> v
              \<and> v \<le> exit_radius (params nz)"
proof -
  define t where "t = x / L_divergent nz"
  have t0: "0 \<le> t" and t1: "t \<le> 1" using L x by (simp_all add: t_def)
  obtain u where u: "np_power (Fin t) (divergent_power (params nz)) = Fin u" "0 \<le> u" "u \<le> 1"
    using np_power_unit [OF t0 t1 p] by blast
  define D where "D = exit_radius (params nz) - throat_radius (params nz)"
  have D0: "0 \<le> D" using te by (simp add: D_def)
  have r: "divergent_r nz x = Fin (throat_radius (params nz) + D * u)"
    using L u(1) by (simp add: divergent_r_def Let_def t_def D_def)
  have "0 \<le> D * u" using D0 u(2) by simp
  moreover have "D * u \<le> D * 1" using D0 u(3) by (intro mult_left_mono) simp_all
  ultimately show ?thesis using r by (auto simp: D_def)
qed

lemma contour_x_sorted:
  assumes "0 < L_convergent nz" "0 < L_divergent nz"
  shows "sorted_wrt (<) (contour_x nz n)"
proof -
  let ?xc = "linspace_pts (- L_convergent nz) 0 (nat ((2 * n) div 5))"
  let ?xd = "linspace_pts 0 (L_divergent nz) (nat (n - (2 * n) div 5))"
  have c: "sorted_wrt (<) ?xc" using assms(1) by (intro linspace_pts_sorted) simp
  have d: "sorted_wrt (<) (drop 1 ?xd)"
    using assms(2) by (intro sorted_wrt_drop linspace_pts_sorted)
  have cross: "x < y" if "x \<in> set ?xc" "y \<in> set (drop 1 ?xd)" for x y
  proof -
    have "x \<le> 0" using linspace_pts_bounds [OF _ that(1)] assms(1) by simp
    moreover have "0 < y" using linspace_pts_tail_pos [OF assms(2) that(2)] .
    ultimately show ?thesis by simp
  qed
  show ?thesis unfolding contour_x_def sorted_wrt_append using c d cross by blast
qed

lemma contour_r_bounded:
  assumes "0 < L_convergent nz" "0 < L_divergent nz"
    and "0 < convergent_power (params nz)" "0 < divergent_power (params nz)"
    and "throat_radius (params nz) \<le> chamber_radius (params nz)"
    and "throat_radius (params nz) \<le> exit_radius (params nz)"
    and "r \<in> set (contour_r nz n)"
  shows "\<exists>v. r = Fin v \<and> throat_radius (params nz) \<le> v"
proof -
  let ?xc = "linspace_pts (- L_convergent nz) 0 (nat ((2 * n) div 5))"
  let ?xd = "linspace_pts 0 (L_divergent nz) (nat (n - (2 * n) div 5))"
  from assms(7) consider "r \<in> set (map (convergent_r nz) ?xc)"
    | "r \<in> set (drop 1 (map (divergent_r nz) ?xd))"
    by (auto simp: contour_r_def)
  then show ?thesis
  proof cases
    case 1
    then obtain x where x: "x \<in> set ?xc" "r = convergent_r nz x" by auto
    have "- L_convergent nz \<le> x \<and> x \<le> 0"
      using linspace_pts_bounds [OF _ x(1)] assms(1) by simp
    then show ?thesis
      using convergent_r_bounds [OF assms(1) _ _ assms(3) assms(5), of x] x(2) by auto
  next
    case 2
    then have "r \<in> set (map (divergent_r nz) ?xd)" by (rule in_set_dropD)
    then obtain x where x: "x \<in> set ?xd" "r = divergent_r nz x" by auto
    have "0 \<le> x \<and> x \<le> L_divergent nz"
      using linspace_pts_bounds [OF _ x(1)] assms(2) by simp
    then show ?thesis
      using divergent_r_bounds [OF assms(2) _ _ assms(4) assms(6), of x] x(2) by auto
  qed
qed

lemma convergent_r_at_inlet:
  "L_convergent nz \<noteq> 0 \<Longrightarrow> 0 < convergent_power (params nz) \<Longrightarrow>
   convergent_r nz (- L_convergent nz) = Fin (chamber_radius (params nz))"
  by (simp add: convergent_r_def np_power_Fin_zero_pos)

lemma convergent_r_at_throat:
  "L_convergent nz \<noteq> 0 \<Longrightarrow> convergent_r nz 0 = Fin (throat_radius (params nz))"
  by (simp add: convergent_r_def np_power_Fin_one)

lemma divergent_r_at_exit:
  "L_divergent nz \<noteq> 0 \<Longrightarrow> divergent_r nz (L_divergent nz) = Fin (exit_radius (params nz))"
  by (simp add: divergent_r_def np_power_Fin_one)

lemma contour_r_first:
  assumes "3 \<le> n"
  shows "contour_r nz n ! 0 = convergent_r nz (- L_convergent nz)"
proof -
  have "1 \<le> (2 * n) div 5" using assms by presburger
  then have "0 < nat ((2 * n) div 5)" by simp
  then show ?thesis by (simp add: contour_r_def nth_append linspace_pts_first)
qed

lemma contour_x_first:
  assumes "3 \<le> n"
  shows "contour_x nz n ! 0 = - L_convergent nz"
proof -
  have "1 \<le> (2 * n) div 5" using assms by presburger
  then have "0 < nat ((2 * n) div 5)" by simp
  then show ?thesis by (simp add: contour_x_def nth_append linspace_pts_first)
qed

lemma contour_last:
  assumes "2 \<le> n"
  shows "last (contour_x nz n) = L_divergent nz"
    and "last (contour_r nz n) = divergent_r nz (L_divergent nz)"
proof -
  define m where "m = nat (n - (2 * n) div 5)"
  have "2 \<le> n - (2 * n) div 5" using assms by presburger
  then have m: "2 \<le> m" unfolding m_def by simp
  have ne: "drop 1 (linspace_pts 0 (L_divergent nz) m) \<noteq> []" using m by simp
  have ne0: "linspace_pts 0 (L_divergent nz) m \<noteq> []" using m by (simp add: linspace_pts_def)
  have l: "last (linspace_pts 0 (L_divergent nz) m) = L_divergent nz"
    using linspace_pts_last [OF m, of 0 "L_divergent nz"] by (simp add: last_conv_nth [OF ne0])
  show "last (contour_x nz n) = L_divergent nz"
    using ne l m by (simp add: contour_x_def m_def [symmetric])
  have ne': "drop 1 (map (divergent_r nz) (linspace_pts 0 (L_divergent nz) m)) \<noteq> []"
    using m by simp
  show "last (contour_r nz n) = divergent_r nz (L_divergent nz)"
    using ne' l m ne0 by (simp add: contour_r_def m_def [symmetric] last_map)
qed

lemma contour_throat:
  assumes "5 \<le> n"
  shows "contour_x nz n ! (nat ((2 * n) div 5) - 1) = 0"
    and "contour_r nz n ! (nat ((2 * n) div 5) - 1) = convergent_r nz 0"
proof -
  define k where "k = nat ((2 * n) div 5)"
  have "2 \<le> (2 * n) div 5" using assms by presburger
  then have k: "2 \<le> k" unfolding k_def by simp
  have x: "linspace_pts (- L_convergent nz) 0 k ! (k - 1) = 0" by (rule linspace_pts_last [OF k])
  show "contour_x nz n ! (nat ((2 * n) div 5) - 1) = 0"
    using k x by (simp add: contour_x_def k_def [symmetric] nth_append)
  show "contour_r nz n ! (nat ((2 * n) div 5) - 1) = convergent_r nz 0"
    using k x by (simp add: contour_r_def k_def [symmetric] nth_append)
qed


section \<open>The wedge mesh in closed form\<close>

lemma wedge_step_eq:
  "wedge_step c s st (verts, a0, w0, a1, w1) =
     (verts @ station_verts c s st,
      a0 @ [length verts], w0 @ [length verts + 1],
      a1 @ [length verts + 2], w1 @ [length verts + 3])"
  by (cases st) (simp add: wedge_step_def station_verts_def Let_def)

lemma length_station_verts [simp]: "length (station_verts c s st) = 4"
  by (cases st) (simp add: station_verts_def)

lemma upt_shift: "map f [0..<Suc n] = f 0 # map (\<lambda>i. f (Suc i)) [0..<n]"
  by (simp only: upt_conv_Cons [of 0 "Suc n"] map_Suc_upt [symmetric]) (simp add: comp_def)

lemma fold_wedge_step:
  "fold (wedge_step c s) zs (verts, a0, w0, a1, w1) =
     (verts @ concat (map (station_verts c s) zs),
      a0 @ map (\<lambda>i. length verts + 4 * i) [0..<length zs],
      w0 @ map (\<lambda>i. length verts + 4 * i + 1) [0..<length zs],
      a1 @ map (\<lambda>i. length verts + 4 * i + 2) [0..<length zs],
      w1 @ map (\<lambda>i. length verts + 4 * i + 3) [0..<length zs])"
proof (induction zs arbitrary: verts a0 w0 a1 w1)
  case Nil
  then show ?case by simp
next
  case (Cons z zs)
  have s: "\<And>k. map (\<lambda>i. length verts + 4 * i + k) [0..<Suc (length zs)] =
           (length verts + k) # map (\<lambda>i. length (verts @ station_verts c s z) + 4 * i + k) [0..<length zs]"
    by (subst upt_shift) simp
  show ?case
    using s [of 0] s [of 1] s [of 2] s [of 3]
    by (simp add: wedge_step_eq Cons.IH del: upt_Suc)
qed

lemma wedge_points_eq:
  "wedge_points x r th =
     (concat (map (station_verts (cos th) (sin th)) (zip x r)),
      map (\<lambda>i. 4 * i) [0..<length (zip x r)],
      map (\<lambda>i. 4 * i + 1) [0..<length (zip x r)],
      map (\<lambda>i. 4 * i + 2) [0..<length (zip x r)],
      map (\<lambda>i. 4 * i + 3) [0..<length (zip x r)])"
  unfolding wedge_points_def by (simp add: fold_wedge_step)

lemma length_concat_stations [simp]:
  "length (concat (map (station_verts c s) zs)) = 4 * length zs"
  by (induction zs) simp_all

lemma nth_concat_stations:
  "i < length zs \<Longrightarrow> k < 4 \<Longrightarrow>
   concat (map (station_verts c s) zs) ! (4 * i + k) = station_verts c s (zs ! i) ! k"
proof (induction zs arbitrary: i)
  case Nil
  then show ?case by simp
next
  case (Cons z zs)
  show ?case
  proof (cases i)
    case 0
    then show ?thesis using Cons.prems by (simp add: nth_append)
  next
    case (Suc j)
    then have "4 * i + k = 4 + (4 * j + k)" by simp
    then show ?thesis using Cons Suc by (simp add: nth_append)
  qed
qed

lemma py_get_map_upt: "i < n \<Longrightarrow> py_get (map f [0..<n]) i = Some (f i)"
  by (simp add: py_get_def)

lemma py_get_map_upt_None: "\<not> i < n \<Longrightarrow> py_get (map f [0..<n]) i = None"
  by (simp add: py_get_def)

lemma those_map_Some:
  "(\<And>x. x \<in> set xs \<Longrightarrow> g x = Some (h x)) \<Longrightarrow> those (map g xs) = Some (map h xs)"
  by (induction xs) simp_all

lemma block_at_eq:
  "i + 1 < n \<Longrightarrow>
   block_at ps (map (\<lambda>i. 4 * i) [0..<n]) (map (\<lambda>i. 4 * i + 1) [0..<n])
     (map (\<lambda>i. 4 * i + 2) [0..<n]) (map (\<lambda>i. 4 * i + 3) [0..<n]) i = Some (segment_block ps i)"
  by (simp add: block_at_def py_get_map_upt segment_block_def)

lemma strip_faces_eq:
  "i + 1 < n \<Longrightarrow>
   strip_faces (map (\<lambda>i. 4 * i) [0..<n]) (map (\<lambda>i. 4 * i + 1) [0..<n])
     (map (\<lambda>i. 4 * i + 2) [0..<n]) (map (\<lambda>i. 4 * i + 3) [0..<n]) i = Some (segment_faces i)"
  by (simp add: strip_faces_def py_get_map_upt segment_faces_def)

lemma generate_block_mesh_dict_eq:
  assumes "get_outer_wall nz (n_axial ps + 1) = Inr (x, r)" and "length r = length x"
  shows "generate_block_mesh_dict nz ps =
           (if x = [] then Inl IndexError else Inr (contour_mesh ps x r))"
proof -
  let ?n = "length x"
  let ?a0 = "map (\<lambda>i. 4 * i) [0..<?n]"
  let ?w0 = "map (\<lambda>i. 4 * i + 1) [0..<?n]"
  let ?a1 = "map (\<lambda>i. 4 * i + 2) [0..<?n]"
  let ?w1 = "map (\<lambda>i. 4 * i + 3) [0..<?n]"
  have bs: "those (map (block_at ps ?a0 ?w0 ?a1 ?w1) [0..<?n - 1]) = Some (map (segment_block ps) [0..<?n - 1])"
    by (rule those_map_Some, rule block_at_eq) auto
  have fs: "those (map (strip_faces ?a0 ?w0 ?a1 ?w1) [0..<?n - 1]) = Some (map segment_faces [0..<?n - 1])"
    by (rule those_map_Some, rule strip_faces_eq) auto
  show ?thesis
  proof (cases "x = []")
    case True
    then show ?thesis
      using assms
      by (simp add: generate_block_mesh_dict_def wedge_points_eq py_get_def)
  next
    case False
    then have n: "0 < ?n" by simp
    then have j: "?n - 1 < ?n" by simp
    have r: "r \<noteq> []" using n assms(2) by auto
    show ?thesis
      using False n j r
      by (simp add: generate_block_mesh_dict_def assms wedge_points_eq bs [simplified]
          fs [simplified] py_get_def contour_mesh_def Let_def comp_def)
  qed
qed


section \<open>The mesh of a parabolic nozzle\<close>

lemma generate_contour_negative:
  assumes "n < 0"
  shows "generate_contour nz n = Inl ValueError"
proof -
  define k where "k = py_int (real_of_int n * 0.4)"
  have k: "k \<le> 0" using assms by (simp add: k_def py_int_def ceiling_le_iff mult_le_0_iff)
  show ?thesis
  proof (cases "k < 0")
    case True
    then have "convergent_section nz k = Inl ValueError"
      by (simp add: convergent_section_def linspace_neg)
    then show ?thesis unfolding generate_contour_def Let_def k_def [symmetric] by simp
  next
    case False
    then have k0: "k = 0" using k by simp
    have c: "convergent_section nz 0 = Inr ([], [])"
      by (simp add: convergent_section_def linspace_def)
    have d: "divergent_section nz n = Inl ValueError"
      using assms by (simp add: divergent_section_def linspace_neg)
    show ?thesis unfolding generate_contour_def Let_def k_def [symmetric] by (simp add: k0 c d)
  qed
qed

lemma contour_x_empty: "0 \<le> n \<Longrightarrow> n \<le> 1 \<Longrightarrow> contour_x nz n = []"
proof -
  assume "0 \<le> n" "n \<le> 1"
  then have "n = 0 \<or> n = 1" by linarith
  then show ?thesis by (auto simp: contour_x_def linspace_pts_def)
qed

lemma generate_block_mesh_dict_contour:
  assumes "0 \<le> n_axial ps + 1"
  shows "generate_block_mesh_dict nz ps =
           (if contour_x nz (n_axial ps + 1) = [] then Inl IndexError
            else Inr (contour_mesh ps (contour_x nz (n_axial ps + 1)) (contour_r nz (n_axial ps + 1))))"
  by (rule generate_block_mesh_dict_eq)
     (simp_all add: get_outer_wall_def generate_contour_eq [OF assms] length_contour_r)

lemma generate_block_mesh_dict_fails:
  assumes "n_axial ps < 1"
  shows "\<exists>e. generate_block_mesh_dict nz ps = Inl e"
proof (cases "0 \<le> n_axial ps + 1")
  case True
  then have "contour_x nz (n_axial ps + 1) = []" using assms by (intro contour_x_empty) simp_all
  then show ?thesis by (simp add: generate_block_mesh_dict_contour [OF True])
next
  case False
  then have "generate_contour nz (n_axial ps + 1) = Inl ValueError"
    by (intro generate_contour_negative) simp
  then show ?thesis by (simp add: generate_block_mesh_dict_def get_outer_wall_def)
qed

lemma generate_block_mesh_dict_returns:
  assumes "1 \<le> n_axial ps"
  shows "generate_block_mesh_dict nz ps =
           Inr (contour_mesh ps (contour_x nz (n_axial ps + 1)) (contour_r nz (n_axial ps + 1)))"
proof -
  have "length (contour_x nz (n_axial ps + 1)) = nat (n_axial ps)"
    using assms length_contour_x [of "n_axial ps + 1" nz] by simp
  then have "contour_x nz (n_axial ps + 1) \<noteq> []" using assms by auto
  then show ?thesis using assms by (simp add: generate_block_mesh_dict_contour)
qed

lemma contour_mesh_counts:
  assumes "length r = length x"
  shows "length (vertices (contour_mesh ps x r)) = 4 * length x"
    and "length (blocks (contour_mesh ps x r)) = length x - 1"
    and "length (inlet_faces (contour_mesh ps x r)) = 1"
    and "length (outlet_faces (contour_mesh ps x r)) = 1"
    and "length (wall_faces (contour_mesh ps x r)) = length x - 1"
    and "length (wedge0_faces (contour_mesh ps x r)) = length x - 1"
    and "length (wedge1_faces (contour_mesh ps x r)) = length x - 1"
  using assms by (simp_all add: contour_mesh_def Let_def)

lemma mesh_counts:
  assumes "1 \<le> n_axial ps"
  shows "\<exists>m. generate_block_mesh_dict nz ps = Inr m
           \<and> length (blocks m) = nat (n_axial ps) - 1
           \<and> length (vertices m) = 4 * nat (n_axial ps)
           \<and> length (inlet_faces m) = 1 \<and> length (outlet_faces m) = 1
           \<and> length (wall_faces m) = nat (n_axial ps) - 1
           \<and> length (wedge0_faces m) = nat (n_axial ps) - 1
           \<and> length (wedge1_faces m) = nat (n_axial ps) - 1"
proof -
  have l: "length (contour_x nz (n_axial ps + 1)) = nat (n_axial ps)"
    using assms length_contour_x [of "n_axial ps + 1" nz] by simp
  have e: "length (contour_r nz (n_axial ps + 1)) = length (contour_x nz (n_axial ps + 1))"
    by (rule length_contour_r)
  show ?thesis
    unfolding generate_block_mesh_dict_returns [OF assms]
    using contour_mesh_counts [OF e, of ps] by (simp add: l)
qed


text \<open>
  Claim C1, evaluated on the code. For the parameters of the example
  (\<open>throat_radius = 0.05\<close>, \<open>exit_radius = 0.15\<close>, \<open>chamber_radius = 0.075\<close>, powers \<open>0.6\<close> and
  \<open>0.8\<close>) and \<open>n_points = 101\<close>, \<^verbatim>\<open>generate_contour\<close> returns 100 points, not 101: the 40
  points of the convergent branch and the 61 points of the divergent branch less its
  first. The first radius is \<open>0.075\<close>, the last is \<open>0.15\<close>, the radius at \<open>x = 0\<close> (index 39)
  is \<open>0.05\<close>, and no radius is below \<open>0.05\<close>.
\<close>

theorem generate_contour_example_101:
  "\<exists>xs rs. generate_contour (ParabolicNozzle_init example_params) 101 = Inr (xs, rs)
     \<and> length xs = 100 \<and> length rs = 100
     \<and> rs ! 0 = Fin 0.075 \<and> last rs = Fin 0.15
     \<and> xs ! 39 = 0 \<and> rs ! 39 = Fin 0.05
     \<and> list_all (\<lambda>r. \<exists>v. r = Fin v \<and> 0.05 \<le> v) rs"
proof -
  let ?nz = "ParabolicNozzle_init example_params"
  have Lc: "0 < L_convergent ?nz" by (simp add: example_params_def)
  have Ld: "0 < L_divergent ?nz" by (rule L_divergent_pos) (simp add: example_params_def)
  have Lcn: "L_convergent ?nz \<noteq> 0" using Lc by (metis less_irrefl)
  have Ldn: "L_divergent ?nz \<noteq> 0" using Ld by (metis less_irrefl)
  have eq: "generate_contour ?nz 101 = Inr (contour_x ?nz 101, contour_r ?nz 101)"
    by (rule generate_contour_eq) simp
  have lx: "length (contour_x ?nz 101) = 100" by (simp add: length_contour_x)
  have lr: "length (contour_r ?nz 101) = 100" by (simp add: length_contour_r length_contour_x)
  have "contour_r ?nz 101 ! 0 = convergent_r ?nz (- L_convergent ?nz)"
    by (rule contour_r_first) simp
  also have "\<dots> = Fin (chamber_radius (params ?nz))"
    by (rule convergent_r_at_inlet [OF Lcn]) (simp add: example_params_def)
  finally have r0: "contour_r ?nz 101 ! 0 = Fin 0.075" by (simp add: example_params_def)
  have "last (contour_r ?nz 101) = divergent_r ?nz (L_divergent ?nz)"
    by (rule contour_last(2)) simp
  also have "\<dots> = Fin (exit_radius (params ?nz))"
    by (rule divergent_r_at_exit [OF Ldn])
  finally have rl: "last (contour_r ?nz 101) = Fin 0.15" by (simp add: example_params_def)
  have x39: "contour_x ?nz 101 ! 39 = 0" using contour_throat(1) [of 101 ?nz] by simp
  have "contour_r ?nz 101 ! 39 = convergent_r ?nz 0"
    using contour_throat(2) [of 101 ?nz] by simp
  also have "\<dots> = Fin (throat_radius (params ?nz))"
    by (rule convergent_r_at_throat [OF Lcn])
  finally have r39: "contour_r ?nz 101 ! 39 = Fin 0.05" by (simp add: example_params_def)
  have "\<exists>v. r = Fin v \<and> 0.05 \<le> v" if "r \<in> set (contour_r ?nz 101)" for r
  proof -
    have "\<exists>v. r = Fin v \<and> throat_radius (params ?nz) \<le> v"
      by (rule contour_r_bounded [OF Lc Ld _ _ _ _ that]) (simp_all add: example_params_def)
    then show ?thesis by (simp add: example_params_def)
  qed
  then have low: "list_all (\<lambda>r. \<exists>v. r = Fin v \<and> 0.05 \<le> v) (contour_r ?nz 101)"
    by (simp add: list_all_iff)
  show ?thesis using eq lx lr r0 rl x39 r39 low by blast
qed


text \<open>
  Claim C2, evaluated on the code. With the default \<open>n_axial = 200\<close> the mesh has 199 blocks,
  800 vertices, one inlet face, one outlet face and 199 faces in each of the wall and the
  two wedge groups: the contour asked for with \<open>n_axial + 1\<close> points has \<open>n_axial\<close> stations
  (lemma \<open>mesh_counts\<close> gives the counts for every \<open>n_axial \<ge> 1\<close>).
\<close>

theorem mesh_counts_default:
  "\<exists>m. generate_block_mesh_dict (ParabolicNozzle_init example_params) default_mesh_params = Inr m
     \<and> n_axial default_mesh_params = 200
     \<and> length (blocks m) = 199
     \<and> length (vertices m) = 800
     \<and> length (inlet_faces m) = 1 \<and> length (outlet_faces m) = 1
     \<and> length (wall_faces m) = 199
     \<and> length (wedge0_faces m) = 199
     \<and> length (wedge1_faces m) = 199"
  using mesh_counts [of default_mesh_params "ParabolicNozzle_init example_params"]
  by (simp add: default_mesh_params_def)


text \<open>
  Claim C3. For parameters with \<open>0 < throat_radius < exit_radius\<close>,
  \<open>throat_radius < chamber_radius\<close> and both powers positive, and for every \<open>n_points \<ge> 2\<close>,
  \<^verbatim>\<open>generate_contour\<close> returns two sequences of equal length; the axial positions are
  strictly increasing (so none is repeated at the seam of the two branches) and every
  radius is a finite number that is not negative.
\<close>

theorem generate_contour_increasing_nonneg:
  assumes "0 < throat_radius ps" "throat_radius ps < exit_radius ps"
    and "throat_radius ps < chamber_radius ps"
    and "0 < convergent_power ps" "0 < divergent_power ps"
    and "2 \<le> n"
  shows "\<exists>xs rs. generate_contour (ParabolicNozzle_init ps) n = Inr (xs, rs)
           \<and> length xs = length rs
           \<and> sorted_wrt (<) xs
           \<and> list_all (\<lambda>r. \<exists>v. r = Fin v \<and> 0 \<le> v) rs"
proof -
  let ?nz = "ParabolicNozzle_init ps"
  have Lc: "0 < L_convergent ?nz" using assms(1,3) by simp
  have Ld: "0 < L_divergent ?nz" using assms(2) by (rule L_divergent_pos)
  have eq: "generate_contour ?nz n = Inr (contour_x ?nz n, contour_r ?nz n)"
    using assms(6) by (intro generate_contour_eq) simp
  have len: "length (contour_x ?nz n) = length (contour_r ?nz n)"
    by (simp add: length_contour_r)
  have inc: "sorted_wrt (<) (contour_x ?nz n)" by (rule contour_x_sorted [OF Lc Ld])
  have "\<exists>v. r = Fin v \<and> 0 \<le> v" if "r \<in> set (contour_r ?nz n)" for r
  proof -
    have "\<exists>v. r = Fin v \<and> throat_radius (params ?nz) \<le> v"
      by (rule contour_r_bounded [OF Lc Ld _ _ _ _ that]) (use assms in simp_all)
    then obtain v where "r = Fin v" "throat_radius ps \<le> v" by auto
    then show ?thesis using assms(1) by auto
  qed
  then have pos: "list_all (\<lambda>r. \<exists>v. r = Fin v \<and> 0 \<le> v) (contour_r ?nz n)"
    by (simp add: list_all_iff)
  show ?thesis using eq len inc pos by blast
qed

theorem generate_contour_increasing_nonneg_witness:
  "0 < throat_radius example_params
   \<and> throat_radius example_params < exit_radius example_params
   \<and> throat_radius example_params < chamber_radius example_params
   \<and> 0 < convergent_power example_params \<and> 0 < divergent_power example_params
   \<and> (\<exists>xs rs. generate_contour (ParabolicNozzle_init example_params) 101 = Inr (xs, rs)
           \<and> length xs = length rs
           \<and> sorted_wrt (<) xs
           \<and> list_all (\<lambda>r. \<exists>v. r = Fin v \<and> 0 \<le> v) rs)"
  using generate_contour_increasing_nonneg [of example_params 101]
  by (simp add: example_params_def)

section \<open>Circular-arc sections\<close>

text \<open>Where the section differs in \<open>x\<close> and the two square roots are of numbers that are not
  negative, the radius function is the chord plus a bulge, and it passes through both
  end points.\<close>

lemma CircularArc_r_func_Fin:
  assumes "end_x (arc_params s) \<noteq> start_x (arc_params s)"
    and "(x - start_x (arc_params s) - (end_x (arc_params s) - start_x (arc_params s)) / 2)\<^sup>2 \<le> (R_c s)\<^sup>2"
    and "((end_x (arc_params s) - start_x (arc_params s)) / 2)\<^sup>2 \<le> (R_c s)\<^sup>2"
  shows "CircularArc_r_func s x =
    Fin (let dx = end_x (arc_params s) - start_x (arc_params s);
             dr = end_r (arc_params s) - start_r (arc_params s);
             sign = (if convex s then 1 else - 1)
         in start_r (arc_params s) + (x - start_x (arc_params s)) / dx * dr
            + sign * sqrt ((R_c s)\<^sup>2 - (x - start_x (arc_params s) - dx / 2)\<^sup>2)
            - sign * sqrt ((R_c s)\<^sup>2 - (dx / 2)\<^sup>2))"
  using assms
  by (simp add: CircularArc_r_func_def Let_def np_power_Fin_2 np_sqrt_def)

lemma CircularArc_endpoints:
  assumes "end_x (arc_params s) \<noteq> start_x (arc_params s)"
    and "((end_x (arc_params s) - start_x (arc_params s)) / 2)\<^sup>2 \<le> (R_c s)\<^sup>2"
  shows "CircularArc_r_func s (start_x (arc_params s)) = Fin (start_r (arc_params s))"
    and "CircularArc_r_func s (end_x (arc_params s)) = Fin (end_r (arc_params s))"
proof -
  have a: "(start_x (arc_params s) - start_x (arc_params s)
            - (end_x (arc_params s) - start_x (arc_params s)) / 2)\<^sup>2 \<le> (R_c s)\<^sup>2"
    using assms(2) by simp
  show "CircularArc_r_func s (start_x (arc_params s)) = Fin (start_r (arc_params s))"
    by (simp add: CircularArc_r_func_Fin [OF assms(1) a assms(2)] Let_def)
  have e: "end_x (arc_params s) - start_x (arc_params s)
            - (end_x (arc_params s) - start_x (arc_params s)) / 2
           = (end_x (arc_params s) - start_x (arc_params s)) / 2"
    by (simp add: field_simps)
  have b: "(end_x (arc_params s) - start_x (arc_params s)
            - (end_x (arc_params s) - start_x (arc_params s)) / 2)\<^sup>2 \<le> (R_c s)\<^sup>2"
    using assms(2) by (simp only: e)
  show "CircularArc_r_func s (end_x (arc_params s)) = Fin (end_r (arc_params s))"
    using assms(1) by (simp add: CircularArc_r_func_Fin [OF assms(1) b assms(2)] Let_def e)
qed

lemma sqrt_25: "sqrt 25 = 5"
  by (rule real_sqrt_unique) simp_all

lemma sqrt_16: "sqrt 16 = 4"
  by (rule real_sqrt_unique) simp_all

lemma sqrt_100: "sqrt 100 = 10"
  by (rule real_sqrt_unique) simp_all

lemma no_circle_through_sample:
  "\<not> (\<exists>cx cr :: real. (0 - cx)\<^sup>2 + (0 - cr)\<^sup>2 = 5\<^sup>2 \<and> (6 - cx)\<^sup>2 + (8 - cr)\<^sup>2 = 5\<^sup>2
                       \<and> (3 - cx)\<^sup>2 + (5 - cr)\<^sup>2 = 5\<^sup>2)"
proof
  assume "\<exists>cx cr :: real. (0 - cx)\<^sup>2 + (0 - cr)\<^sup>2 = 5\<^sup>2 \<and> (6 - cx)\<^sup>2 + (8 - cr)\<^sup>2 = 5\<^sup>2
                       \<and> (3 - cx)\<^sup>2 + (5 - cr)\<^sup>2 = 5\<^sup>2"
  then obtain cx cr :: real where a: "(0 - cx)\<^sup>2 + (0 - cr)\<^sup>2 = 5\<^sup>2"
    and b: "(6 - cx)\<^sup>2 + (8 - cr)\<^sup>2 = 5\<^sup>2" and c: "(3 - cx)\<^sup>2 + (5 - cr)\<^sup>2 = 5\<^sup>2" by blast
  have a': "cx * cx + cr * cr = 25" using a by (simp add: power2_eq_square)
  have b': "12 * cx + 16 * cr = 100" using a' b by (simp add: power2_eq_square algebra_simps)
  have c': "6 * cx + 10 * cr = 34" using a' c by (simp add: power2_eq_square algebra_simps)
  have "cr = - 8" using b' c' by linarith
  moreover have "cx = 19" using b' c' by linarith
  ultimately show False using a' by simp
qed

text \<open>
  Claim C4, evaluated on the code. For the section from \<open>(0, 0)\<close> to \<open>(6, 8)\<close> with radius of
  curvature 5 (the chord is 10, so \<open>R \<ge> c/2\<close>), the radius function returns the two end radii
  at the two ends, and 5 at \<open>x = 3\<close>: chord height 4 plus the bulge \<open>5 - 4\<close>. No circle of
  radius 5 through the two end points passes through \<open>(3, 5)\<close>, so the sampled points are
  not on a circular arc of the radius asked for.
\<close>

theorem CircularArc_not_circular:
  "CircularArc_chord arc_example = 10
   \<and> CircularArc_chord arc_example / 2 \<le> R_c arc_example
   \<and> CircularArc_r_func arc_example 0 = Fin 0
   \<and> CircularArc_r_func arc_example 6 = Fin 8
   \<and> CircularArc_r_func arc_example 3 = Fin 5
   \<and> \<not> (\<exists>cx cr :: real. (0 - cx)\<^sup>2 + (0 - cr)\<^sup>2 = (R_c arc_example)\<^sup>2
                         \<and> (6 - cx)\<^sup>2 + (8 - cr)\<^sup>2 = (R_c arc_example)\<^sup>2
                         \<and> (3 - cx)\<^sup>2 + (5 - cr)\<^sup>2 = (R_c arc_example)\<^sup>2)"
proof -
  have ch: "CircularArc_chord arc_example = 10"
    by (simp add: CircularArc_chord_def arc_example_def sqrt_100)
  have r0: "CircularArc_r_func arc_example 0 = Fin 0"
    by (simp add: CircularArc_r_func_def arc_example_def np_power_Fin_2 np_sqrt_def)
  have r6: "CircularArc_r_func arc_example 6 = Fin 8"
    by (simp add: CircularArc_r_func_def arc_example_def np_power_Fin_2 np_sqrt_def)
  have r3: "CircularArc_r_func arc_example 3 = Fin 5"
    by (simp add: CircularArc_r_func_def arc_example_def np_power_Fin_2 np_sqrt_def sqrt_25 sqrt_16)
  have R: "R_c arc_example = 5" by (simp add: arc_example_def)
  show ?thesis using ch r0 r6 r3 no_circle_through_sample by (simp add: R)
qed


section \<open>Exponents that are not positive\<close>

lemma convergent_r_negative_power:
  assumes "convergent_power (params nz) < 0"
  shows "convergent_r nz (- L_convergent nz) = NonFinite"
proof (cases "L_convergent nz = 0")
  case True
  then show ?thesis using assms by (simp add: convergent_r_def np_power_def)
next
  case False
  then show ?thesis using assms by (simp add: convergent_r_def np_power_Fin_zero_neg)
qed

text \<open>
  Claim C5 fails as stated: with \<open>convergent_power = -1\<close> the call returns a contour, and its
  first radius is not finite.
\<close>

theorem generate_contour_negative_power_counterexample:
  "convergent_power negative_power_params \<le> 0
   \<and> (\<exists>xs rs. generate_contour (ParabolicNozzle_init negative_power_params) 5 = Inr (xs, rs)
         \<and> rs ! 0 = NonFinite)"
proof -
  let ?nz = "ParabolicNozzle_init negative_power_params"
  have g: "generate_contour ?nz 5 = Inr (contour_x ?nz 5, contour_r ?nz 5)"
    by (rule generate_contour_eq) simp
  have "contour_r ?nz 5 ! 0 = convergent_r ?nz (- L_convergent ?nz)"
    by (rule contour_r_first) simp
  also have "\<dots> = NonFinite"
    by (simp add: convergent_r_def negative_power_params_def np_power_Fin_zero_neg)
  finally show ?thesis using g by (simp add: negative_power_params_def)
qed

text \<open>
  Claim C5, amended. For a nozzle whose convergent or divergent power is \<open>\<le> 0\<close>, contour
  generation checks nothing and raises nothing: for every \<open>n_points \<ge> 0\<close> it returns a
  contour, and when the convergent power is negative and \<open>n_points \<ge> 3\<close> the first radius of
  that contour is not finite.
\<close>

theorem generate_contour_no_power_check:
  assumes "convergent_power ps \<le> 0 \<or> divergent_power ps \<le> 0" and "0 \<le> n"
  shows "\<exists>xs rs. generate_contour (ParabolicNozzle_init ps) n = Inr (xs, rs)
           \<and> (convergent_power ps < 0 \<and> 3 \<le> n \<longrightarrow> rs ! 0 = NonFinite)"
proof -
  let ?nz = "ParabolicNozzle_init ps"
  have g: "generate_contour ?nz n = Inr (contour_x ?nz n, contour_r ?nz n)"
    by (rule generate_contour_eq [OF assms(2)])
  have "contour_r ?nz n ! 0 = NonFinite" if "convergent_power ps < 0" "3 \<le> n"
  proof -
    have "contour_r ?nz n ! 0 = convergent_r ?nz (- L_convergent ?nz)"
      by (rule contour_r_first [OF that(2)])
    also have "\<dots> = NonFinite"
      by (rule convergent_r_negative_power) (use that in simp)
    finally show ?thesis .
  qed
  then show ?thesis using g by blast
qed

theorem generate_contour_no_power_check_witness:
  "convergent_power negative_power_params \<le> 0 \<and> 3 \<le> (5::int)
   \<and> (\<exists>xs rs. generate_contour (ParabolicNozzle_init negative_power_params) 5 = Inr (xs, rs)
         \<and> rs ! 0 = NonFinite)"
  using generate_contour_no_power_check [of negative_power_params 5]
  by (simp add: negative_power_params_def)


section \<open>Degenerate mesh input\<close>

lemma degenerate_contour_x:
  "contour_x (ParabolicNozzle_init degenerate_params) 4 = [- 0.1125, 0, 0]"
  by (simp add: contour_x_def linspace_pts_def degenerate_params_def eval_nat_numeral)

lemma degenerate_contour_length:
  "length (contour_r (ParabolicNozzle_init degenerate_params) 4) = 3"
  by (simp add: length_contour_r degenerate_contour_x)

lemma fst_station_vertex:
  assumes "i < length x" and "length r = length x" and "k < 4"
  shows "fst (concat (map (station_verts c s) (zip x r)) ! (4 * i + k)) = Fin (x ! i)"
proof -
  have i: "i < length (zip x r)" using assms by simp
  have "concat (map (station_verts c s) (zip x r)) ! (4 * i + k)
          = station_verts c s (zip x r ! i) ! k"
    using i assms(3) by (rule nth_concat_stations)
  also have "zip x r ! i = (x ! i, r ! i)" using assms by simp
  finally have e: "concat (map (station_verts c s) (zip x r)) ! (4 * i + k)
          = station_verts c s (x ! i, r ! i) ! k" .
  have "k = 0 \<or> k = 1 \<or> k = 2 \<or> k = 3" using assms(3) by linarith
  then show ?thesis unfolding e by (auto simp: station_verts_def)
qed

lemma contour_mesh_block_axial:
  assumes "length r = length x" and "i + 1 < length x"
  shows "map (\<lambda>k. fst (vertices (contour_mesh ps x r) ! k)) (hex (blocks (contour_mesh ps x r) ! i))
           = map Fin [x ! i, x ! (i + 1), x ! (i + 1), x ! i, x ! i, x ! (i + 1), x ! (i + 1), x ! i]"
proof -
  define c where "c = cos (0.5 * deg2rad (wedge_angle_deg ps))"
  define s where "s = sin (0.5 * deg2rad (wedge_angle_deg ps))"
  define V where "V = concat (map (station_verts c s) (zip x r))"
  have v: "vertices (contour_mesh ps x r) = V"
    by (simp add: contour_mesh_def Let_def V_def c_def s_def)
  have b: "hex (blocks (contour_mesh ps x r) ! i)
             = [4 * i + 0, 4 * (i + 1) + 0, 4 * (i + 1) + 1, 4 * i + 1,
                4 * i + 2, 4 * (i + 1) + 2, 4 * (i + 1) + 3, 4 * i + 3]"
    using assms(2) by (simp add: contour_mesh_def Let_def segment_block_def)
  have f: "fst (V ! (4 * j + k)) = Fin (x ! j)" if "j < length x" and "k < 4" for j k
    unfolding V_def using that(1) assms(1) that(2) by (rule fst_station_vertex)
  have i: "i < length x" using assms(2) by simp
  note h = f [OF i, of 0, simplified] f [OF i, of 1, simplified] f [OF i, of 2, simplified]
    f [OF i, of 3, simplified] f [OF assms(2), of 0, simplified] f [OF assms(2), of 1, simplified]
    f [OF assms(2), of 2, simplified] f [OF assms(2), of 3, simplified]
  show ?thesis unfolding v b by (simp add: h)
qed




section \<open>Unit powers give a conical nozzle\<close>

lemma convergent_r_linear:
  assumes "convergent_power (params nz) = 1"
    and "LinearSection_init \<lparr> start_x = - L_convergent nz, end_x = 0,
           start_r = chamber_radius (params nz), end_r = throat_radius (params nz),
           n_points = k \<rparr> = Inr lc"
  shows "convergent_r nz x = LinearSection_r_func lc x"
proof -
  have L: "L_convergent nz \<noteq> 0" using assms(2) by (auto simp: LinearSection_init_def split: if_splits)
  have lc: "lc = \<lparr> linear_params = \<lparr> start_x = - L_convergent nz, end_x = 0,
           start_r = chamber_radius (params nz), end_r = throat_radius (params nz),
           n_points = k \<rparr>,
         slope = (throat_radius (params nz) - chamber_radius (params nz)) / L_convergent nz \<rparr>"
    using assms(2) L by (auto simp: LinearSection_init_def)
  show ?thesis
    using L assms(1) by (simp add: convergent_r_def LinearSection_r_func_def lc np_power_one field_simps)
qed

lemma divergent_r_linear:
  assumes "divergent_power (params nz) = 1"
    and "LinearSection_init \<lparr> start_x = 0, end_x = L_divergent nz,
           start_r = throat_radius (params nz), end_r = exit_radius (params nz),
           n_points = k \<rparr> = Inr ld"
  shows "divergent_r nz x = LinearSection_r_func ld x"
proof -
  have L: "L_divergent nz \<noteq> 0" using assms(2) by (auto simp: LinearSection_init_def split: if_splits)
  have ld: "ld = \<lparr> linear_params = \<lparr> start_x = 0, end_x = L_divergent nz,
           start_r = throat_radius (params nz), end_r = exit_radius (params nz),
           n_points = k \<rparr>,
         slope = (exit_radius (params nz) - throat_radius (params nz)) / L_divergent nz \<rparr>"
    using assms(2) L by (auto simp: LinearSection_init_def)
  show ?thesis
    using L assms(1) by (simp add: divergent_r_def LinearSection_r_func_def ld np_power_one field_simps)
qed

lemma convergent_section_radii:
  "convergent_section nz n = Inr (xs, rs) \<Longrightarrow> rs = map (convergent_r nz) xs"
  by (auto simp: convergent_section_def split: sum.splits)

lemma divergent_section_radii:
  "divergent_section nz n = Inr (xs, rs) \<Longrightarrow> rs = map (divergent_r nz) xs"
  by (auto simp: divergent_section_def split: sum.splits)

lemma generate_contour_split:
  assumes "generate_contour nz n = Inr (xs, rs)"
  shows "\<exists>k\<le>length xs. take k rs = map (convergent_r nz) (take k xs)
                       \<and> drop k rs = map (divergent_r nz) (drop k xs)"
proof -
  obtain xc rc xd rd where c: "convergent_section nz (py_int (real_of_int n * 0.4)) = Inr (xc, rc)"
    and d: "divergent_section nz (n - py_int (real_of_int n * 0.4)) = Inr (xd, rd)"
    and xs: "xs = xc @ drop 1 xd" and rs: "rs = rc @ drop 1 rd"
    using assms by (auto simp: generate_contour_def Let_def split: sum.splits)
  have rc: "rc = map (convergent_r nz) xc" using c by (rule convergent_section_radii)
  have rd: "rd = map (divergent_r nz) xd" using d by (rule divergent_section_radii)
  have "take (length xc) rs = map (convergent_r nz) (take (length xc) xs)"
    by (simp add: xs rs rc)
  moreover have "drop (length xc) rs = map (divergent_r nz) (drop (length xc) xs)"
    by (simp add: xs rs rc rd drop_map)
  moreover have "length xc \<le> length xs" by (simp add: xs)
  ultimately show ?thesis by blast
qed

subsection \<open>The two computations in double precision\<close>

lemma floor_log2:
  assumes "2 powi e \<le> x" and "x < 2 powi (e + 1)"
  shows "\<lfloor>log 2 x\<rfloor> = e"
proof -
  have "0 < (2 :: real) powi e" by simp
  then have p: "0 < x" using assms(1) by linarith
  have a: "2 powr (of_int e) \<le> x" using assms(1) by (simp add: powr_real_of_int')
  have b: "x < 2 powr (of_int (e + 1))" using assms(2) powr_real_of_int' [of 2 "e + 1"] by simp
  have "of_int e \<le> log 2 x" using a p by (simp add: le_log_iff)
  moreover have "log 2 x < of_int (e + 1)" using b p by (simp add: log_less_iff)
  ultimately show ?thesis by linarith
qed

lemma f64_eval:
  assumes "2 powi e \<le> \<bar>x\<bar>" and "\<bar>x\<bar> < 2 powi (e + 1)" and "- 1022 \<le> e"
    and "y = of_int (round_half_even (x / 2 powi (e - 52))) * 2 powi (e - 52)"
    and "\<bar>y\<bar> < 2 ^ 1024"
  shows "fl (Fin x) = Fin y"
proof -
  have "0 < (2 :: real) powi e" by simp
  then have "0 < \<bar>x\<bar>" using assms(1) by linarith
  then have "x \<noteq> 0" by simp
  moreover have "\<lfloor>log 2 \<bar>x\<bar>\<rfloor> = e" using assms(1,2) by (rule floor_log2)
  ultimately show ?thesis using assms(3,4,5) by (simp add: fl_def f64_def Let_def max_def)
qed

lemma fl_values:
  "fl (Fin 3) = Fin 3"
  "fl (Fin (1 / 2)) = Fin (1 / 2)"
  "fl (Fin (5 / 2)) = Fin (5 / 2)"
  "fl (Fin (- 1 / 2)) = Fin (- 1 / 2)"
  "fl (Fin 1) = Fin 1"
  "fl (Fin (- 1)) = Fin (- 1)"
  by (rule f64_eval [of 1], simp_all add: round_half_even_def Let_def,
      rule f64_eval [of "- 1"], simp_all add: round_half_even_def Let_def,
      rule f64_eval [of 1], simp_all add: round_half_even_def Let_def,
      rule f64_eval [of "- 1"], simp_all add: round_half_even_def Let_def,
      rule f64_eval [of 0], simp_all add: round_half_even_def Let_def,
      rule f64_eval [of 0], simp_all add: round_half_even_def Let_def)

lemma fl_five_sixths: "fl (Fin (5 / 6)) = Fin (7505999378950827 / 2 ^ 53)"
  by (rule f64_eval [of "- 1"]) (simp_all add: round_half_even_def Let_def)

lemma fl_t_exact: "fl (Fin (7505999378950827 / 2 ^ 53)) = Fin (7505999378950827 / 2 ^ 53)"
  by (rule f64_eval [of "- 1"]) (simp_all add: round_half_even_def Let_def)

lemma fl_two_minus_t:
  "fl (Fin (2 - 7505999378950827 / 2 ^ 53)) = Fin (5254199565265578 / 2 ^ 52)"
  by (rule f64_eval [of 0]) (simp_all add: round_half_even_def Let_def)

lemma fl_third: "fl (Fin (- 1 / 3)) = Fin (- 6004799503160661 / 2 ^ 54)"
  by (rule f64_eval [of "- 2"]) (simp_all add: round_half_even_def Let_def)

lemma fl_slope_times:
  "fl (Fin (- 6004799503160661 / 2 ^ 54 * (5 / 2))) = Fin (- 7505999378950826 / 2 ^ 53)"
  by (rule f64_eval [of "- 1"]) (simp_all add: round_half_even_def Let_def)

lemma fl_two_plus:
  "fl (Fin (2 + - 7505999378950826 / 2 ^ 53)) = Fin (5254199565265579 / 2 ^ 52)"
  by (rule f64_eval [of 0]) (simp_all add: round_half_even_def Let_def)

lemma conical_linspace_f64:
  "\<exists>xs. linspace_f64 (- 3) 0 7 = Inr xs \<and> length xs = 7 \<and> xs ! 5 = Fin (- 1 / 2)"
proof -
  have s: "fl (Fin 3 / Fin 6) = Fin (1 / 2)" using fl_values(2) by simp
  have d: "fl (Fin 0 - Fin (- 3)) = Fin 3" using fl_values(1) by simp
  have e: "fl (fl (Fin (real 5) * Fin (1 / 2)) + Fin (- 3)) = Fin (- 1 / 2)"
    using fl_values(3,4) by simp
  let ?y = "map (\<lambda>i. fl (fl (Fin (real i) * Fin (1 / 2)) + Fin (- 3))) [0..<7]"
  have "linspace_f64 (- 3) 0 7 = Inr (?y[6 := Fin 0])"
    by (simp add: linspace_f64_def Let_def fl_values)
  moreover have "?y[6 := Fin 0] ! 5 = Fin (- 1 / 2)" using e by simp
  moreover have "length (?y[6 := Fin 0]) = 7" by simp
  ultimately show ?thesis by blast
qed

lemma conical_convergent_r_f64:
  "convergent_r_unit_f64 (ParabolicNozzle_init conical_params) (Fin (- 1 / 2))
     = Fin (5254199565265578 / 2 ^ 52)"
proof -
  have a: "fl (Fin (- 1 / 2) + Fin 3) = Fin (5 / 2)" using fl_values(3) by simp
  have t: "fl (Fin (5 / 2) / Fin 3) = Fin (7505999378950827 / 2 ^ 53)" using fl_five_sixths by simp
  have c: "fl (Fin 2 - Fin 1) = Fin 1" using fl_values(5) by simp
  have m: "fl (Fin 1 * Fin (7505999378950827 / 2 ^ 53)) = Fin (7505999378950827 / 2 ^ 53)"
    using fl_t_exact by simp
  have r: "fl (Fin 2 - Fin (7505999378950827 / 2 ^ 53)) = Fin (5254199565265578 / 2 ^ 52)"
    using fl_two_minus_t by simp
  have L: "L_convergent (ParabolicNozzle_init conical_params) = 3"
    and ch: "chamber_radius (params (ParabolicNozzle_init conical_params)) = 2"
    and th: "throat_radius (params (ParabolicNozzle_init conical_params)) = 1"
    by (simp_all add: conical_params_def)
  show ?thesis unfolding convergent_r_unit_f64_def Let_def L ch th a t c m r ..
qed

lemma conical_linear_r_f64:
  "LinearSection_slope_f64 conical_convergent_params = Inr (Fin (- 6004799503160661 / 2 ^ 54))"
  "LinearSection_r_func_f64 conical_convergent_params (Fin (- 6004799503160661 / 2 ^ 54))
       (Fin (- 1 / 2))
     = Fin (5254199565265579 / 2 ^ 52)"
proof -
  have a: "fl (Fin 1 - Fin 2) = Fin (- 1)" using fl_values(6) by simp
  have b: "fl (Fin 0 - Fin (- 3)) = Fin 3" using fl_values(1) by simp
  have s: "fl (Fin (- 1) / Fin 3) = Fin (- 6004799503160661 / 2 ^ 54)" using fl_third by simp
  have p: "start_x conical_convergent_params = - 3" "end_x conical_convergent_params = 0"
    "start_r conical_convergent_params = 2" "end_r conical_convergent_params = 1"
    by (simp_all add: conical_convergent_params_def)
  show "LinearSection_slope_f64 conical_convergent_params = Inr (Fin (- 6004799503160661 / 2 ^ 54))"
    unfolding LinearSection_slope_f64_def p a b s by simp
  have x: "fl (Fin (- 1 / 2) - Fin (- 3)) = Fin (5 / 2)" using fl_values(3) by simp
  have m: "fl (Fin (- 6004799503160661 / 2 ^ 54) * Fin (5 / 2)) = Fin (- 7505999378950826 / 2 ^ 53)"
    using fl_slope_times by simp
  have r: "fl (Fin 2 + Fin (- 7505999378950826 / 2 ^ 53)) = Fin (5254199565265579 / 2 ^ 52)"
    using fl_two_plus by simp
  show "LinearSection_r_func_f64 conical_convergent_params (Fin (- 6004799503160661 / 2 ^ 54))
       (Fin (- 1 / 2))
     = Fin (5254199565265579 / 2 ^ 52)"
    unfolding LinearSection_r_func_f64_def p x m r ..
qed

text \<open>
  Claim C7 fails as stated, because the two computations round differently. For the conical
  nozzle with chamber radius 2 and throat radius 1 the convergent branch of 7 samples (the
  one that \<^verbatim>\<open>generate_contour(18)\<close> builds) has its sample 5 at \<open>x = -0.5\<close>; there the branch
  computes \<open>2 - 1 * ((x + 3) / 3)\<close> and gets \<open>5254199565265578 / 2\<^sup>5\<^sup>2\<close> (1.1666666666666665),
  while the linear section from \<open>(-3, 2)\<close> to \<open>(0, 1)\<close> computes
  \<open>2 + ((1 - 2) / (0 - (-3))) * (x - (-3))\<close> and gets \<open>5254199565265579 / 2\<^sup>5\<^sup>2\<close>
  (1.1666666666666667).
\<close>

theorem unit_powers_rounding_counterexample:
  "convergent_power conical_params = 1 \<and> divergent_power conical_params = 1
   \<and> start_x conical_convergent_params = - L_convergent (ParabolicNozzle_init conical_params)
   \<and> end_x conical_convergent_params = 0
   \<and> start_r conical_convergent_params = chamber_radius conical_params
   \<and> end_r conical_convergent_params = throat_radius conical_params
   \<and> (\<exists>xs rs sl.
         convergent_section_unit_f64 (ParabolicNozzle_init conical_params) 7 = Inr (xs, rs)
       \<and> LinearSection_slope_f64 conical_convergent_params = Inr sl
       \<and> xs ! 5 = Fin (- 1 / 2)
       \<and> rs ! 5 = Fin (5254199565265578 / 2 ^ 52)
       \<and> LinearSection_r_func_f64 conical_convergent_params sl (xs ! 5)
           = Fin (5254199565265579 / 2 ^ 52)
       \<and> rs ! 5 \<noteq> LinearSection_r_func_f64 conical_convergent_params sl (xs ! 5))"
proof -
  let ?nz = "ParabolicNozzle_init conical_params"
  obtain xs where l: "linspace_f64 (- 3) 0 7 = Inr xs" and n: "length xs = 7"
    and x: "xs ! 5 = Fin (- 1 / 2)"
    using conical_linspace_f64 by blast
  have L: "L_convergent ?nz = 3" by (simp add: conical_params_def)
  have c: "convergent_section_unit_f64 ?nz 7 = Inr (xs, map (convergent_r_unit_f64 ?nz) xs)"
    unfolding convergent_section_unit_f64_def L by (simp add: l)
  have "map (convergent_r_unit_f64 ?nz) xs ! 5 = convergent_r_unit_f64 ?nz (xs ! 5)"
    using n by simp
  then have r: "map (convergent_r_unit_f64 ?nz) xs ! 5 = Fin (5254199565265578 / 2 ^ 52)"
    unfolding x by (simp only: conical_convergent_r_f64)
  have q: "LinearSection_r_func_f64 conical_convergent_params (Fin (- 6004799503160661 / 2 ^ 54))
             (xs ! 5) = Fin (5254199565265579 / 2 ^ 52)"
    unfolding x by (rule conical_linear_r_f64)
  have d: "map (convergent_r_unit_f64 ?nz) xs ! 5
             \<noteq> LinearSection_r_func_f64 conical_convergent_params
                 (Fin (- 6004799503160661 / 2 ^ 54)) (xs ! 5)"
    unfolding r q by simp
  have p: "convergent_power conical_params = 1" "divergent_power conical_params = 1"
    "start_x conical_convergent_params = - L_convergent ?nz"
    "end_x conical_convergent_params = 0"
    "start_r conical_convergent_params = chamber_radius conical_params"
    "end_r conical_convergent_params = throat_radius conical_params"
    by (simp_all add: conical_params_def conical_convergent_params_def)
  show ?thesis using p c conical_linear_r_f64(1) x r q d by blast
qed

text \<open>
  Claim C7, amended. With both powers equal to 1 both branches are linear interpolation in
  exact real arithmetic: the convergent branch is the linear section from
  \<open>(-L_convergent, chamber_radius)\<close> to \<open>(0, throat_radius)\<close> and the divergent branch is the
  linear section from \<open>(0, throat_radius)\<close> to \<open>(L_divergent, exit_radius)\<close>, at every sampled
  position, for each branch alone and for the two parts of the contour that
  \<^verbatim>\<open>generate_contour\<close> joins, whenever the two sections can be built. (In double precision
  the results can differ in the last place, as in the counterexample above.)
\<close>

theorem unit_powers_linear:
  assumes "convergent_power ps = 1" and "divergent_power ps = 1"
    and "LinearSection_init \<lparr> start_x = - L_convergent (ParabolicNozzle_init ps), end_x = 0,
           start_r = chamber_radius ps, end_r = throat_radius ps, n_points = k \<rparr> = Inr lc"
    and "LinearSection_init \<lparr> start_x = 0, end_x = L_divergent (ParabolicNozzle_init ps),
           start_r = throat_radius ps, end_r = exit_radius ps, n_points = k' \<rparr> = Inr ld"
  shows "(\<forall>n xs rs. convergent_section (ParabolicNozzle_init ps) n = Inr (xs, rs)
            \<longrightarrow> rs = map (LinearSection_r_func lc) xs)
       \<and> (\<forall>n xs rs. divergent_section (ParabolicNozzle_init ps) n = Inr (xs, rs)
            \<longrightarrow> rs = map (LinearSection_r_func ld) xs)
       \<and> (\<forall>n xs rs. generate_contour (ParabolicNozzle_init ps) n = Inr (xs, rs)
            \<longrightarrow> (\<exists>j\<le>length xs. take j rs = map (LinearSection_r_func lc) (take j xs)
                                 \<and> drop j rs = map (LinearSection_r_func ld) (drop j xs)))"
proof -
  let ?nz = "ParabolicNozzle_init ps"
  have c: "convergent_r ?nz = LinearSection_r_func lc"
    by (rule ext, rule convergent_r_linear [where k = k]) (use assms in simp_all)
  have d: "divergent_r ?nz = LinearSection_r_func ld"
    by (rule ext, rule divergent_r_linear [where k = k']) (use assms in simp_all)
  show ?thesis
    using convergent_section_radii [of ?nz] divergent_section_radii [of ?nz]
      generate_contour_split [of ?nz]
    unfolding c d by blast
qed

theorem unit_powers_linear_witness:
  "convergent_power conical_params = 1 \<and> divergent_power conical_params = 1
   \<and> (\<exists>xs rs. generate_contour (ParabolicNozzle_init conical_params) 18 = Inr (xs, rs)
         \<and> (\<exists>j\<le>length xs. take j rs = map (LinearSection_r_func conical_lc) (take j xs)
                              \<and> drop j rs = map (LinearSection_r_func conical_ld) (drop j xs)))"
proof -
  let ?nz = "ParabolicNozzle_init conical_params"
  have t: "tan (deg2rad 15) \<noteq> 0" using tan_15_pos by simp
  have a: "LinearSection_init \<lparr> start_x = - L_convergent ?nz, end_x = 0,
           start_r = chamber_radius conical_params, end_r = throat_radius conical_params,
           n_points = 50 \<rparr> = Inr conical_lc"
    by (simp add: LinearSection_init_def conical_lc_def conical_params_def)
  have b: "LinearSection_init \<lparr> start_x = 0, end_x = L_divergent ?nz,
           start_r = throat_radius conical_params, end_r = exit_radius conical_params,
           n_points = 50 \<rparr> = Inr conical_ld"
    using t by (simp add: LinearSection_init_def conical_ld_def conical_params_def)
  have p: "convergent_power conical_params = 1" "divergent_power conical_params = 1"
    by (simp_all add: conical_params_def)
  have g: "generate_contour ?nz 18 = Inr (contour_x ?nz 18, contour_r ?nz 18)"
    by (rule generate_contour_eq) simp
  show ?thesis using unit_powers_linear [OF p a b] g p by blast
qed


section \<open>Hermite sections\<close>

lemma Hermite_r_func_Fin:
  assumes "start_x (hermite_params s) \<noteq> end_x (hermite_params s)"
  shows "Hermite_r_func s x = Fin (hermite_poly s x)"
  using assms by (simp add: Hermite_r_func_def hermite_poly_def Let_def np_power_Fin_2 np_power_Fin_3)

lemma cubic_blend_deriv:
  "((\<lambda>t::real. (2 * t ^ 3 - 3 * t\<^sup>2 + 1) * A + (t ^ 3 - 2 * t\<^sup>2 + t) * B
                 + (- 2 * t ^ 3 + 3 * t\<^sup>2) * C + (t ^ 3 - t\<^sup>2) * D)
    has_real_derivative
      ((6 * t\<^sup>2 - 6 * t) * A + (3 * t\<^sup>2 - 4 * t + 1) * B
       + (- 6 * t\<^sup>2 + 6 * t) * C + (3 * t\<^sup>2 - 2 * t) * D)) (at t)"
  by (auto intro!: derivative_eq_intros simp: algebra_simps power2_eq_square power3_eq_cube)

lemma affine_param_deriv:
  "d \<noteq> 0 \<Longrightarrow> ((\<lambda>x::real. (x - a) / d) has_real_derivative 1 / d) (at x)"
  by (auto intro!: derivative_eq_intros)

lemma hermite_shape_deriv:
  fixes a d A B C D :: real
  assumes "d \<noteq> 0"
  shows "((\<lambda>x. (2 * ((x - a) / d) ^ 3 - 3 * ((x - a) / d)\<^sup>2 + 1) * A
              + (((x - a) / d) ^ 3 - 2 * ((x - a) / d)\<^sup>2 + (x - a) / d) * B
              + (- 2 * ((x - a) / d) ^ 3 + 3 * ((x - a) / d)\<^sup>2) * C
              + (((x - a) / d) ^ 3 - ((x - a) / d)\<^sup>2) * D)
          has_real_derivative
            ((6 * ((x - a) / d)\<^sup>2 - 6 * ((x - a) / d)) * A
             + (3 * ((x - a) / d)\<^sup>2 - 4 * ((x - a) / d) + 1) * B
             + (- 6 * ((x - a) / d)\<^sup>2 + 6 * ((x - a) / d)) * C
             + (3 * ((x - a) / d)\<^sup>2 - 2 * ((x - a) / d)) * D) * (1 / d)) (at x)"
  by (rule DERIV_chain2 [OF cubic_blend_deriv affine_param_deriv [OF assms]])

lemma hermite_poly_deriv_start:
  assumes "start_x (hermite_params s) \<noteq> end_x (hermite_params s)"
  shows "(hermite_poly s has_real_derivative start_slope s) (at (start_x (hermite_params s)))"
proof -
  define a where "a = start_x (hermite_params s)"
  define d where "d = end_x (hermite_params s) - a"
  have d0: "d \<noteq> 0" using assms by (simp add: d_def a_def)
  have f: "hermite_poly s =
      (\<lambda>x. (2 * ((x - a) / d) ^ 3 - 3 * ((x - a) / d)\<^sup>2 + 1) * start_r (hermite_params s)
              + (((x - a) / d) ^ 3 - 2 * ((x - a) / d)\<^sup>2 + (x - a) / d) * (d * start_slope s)
              + (- 2 * ((x - a) / d) ^ 3 + 3 * ((x - a) / d)\<^sup>2) * end_r (hermite_params s)
              + (((x - a) / d) ^ 3 - ((x - a) / d)\<^sup>2) * (d * end_slope s))"
    by (rule ext) (simp add: hermite_poly_def Let_def a_def d_def mult.assoc)
  have "(hermite_poly s has_real_derivative start_slope s) (at a)"
    using hermite_shape_deriv [OF d0, where x = a and a = a and A = "start_r (hermite_params s)"
        and B = "d * start_slope s" and C = "end_r (hermite_params s)" and D = "d * end_slope s"] d0
    by (simp add: f)
  then show ?thesis by (simp add: a_def)
qed

lemma hermite_poly_deriv_end:
  assumes "start_x (hermite_params s) \<noteq> end_x (hermite_params s)"
  shows "(hermite_poly s has_real_derivative end_slope s) (at (end_x (hermite_params s)))"
proof -
  define a where "a = start_x (hermite_params s)"
  define d where "d = end_x (hermite_params s) - a"
  have d0: "d \<noteq> 0" using assms by (simp add: d_def a_def)
  have e: "end_x (hermite_params s) = a + d" by (simp add: d_def)
  have f: "hermite_poly s =
      (\<lambda>x. (2 * ((x - a) / d) ^ 3 - 3 * ((x - a) / d)\<^sup>2 + 1) * start_r (hermite_params s)
              + (((x - a) / d) ^ 3 - 2 * ((x - a) / d)\<^sup>2 + (x - a) / d) * (d * start_slope s)
              + (- 2 * ((x - a) / d) ^ 3 + 3 * ((x - a) / d)\<^sup>2) * end_r (hermite_params s)
              + (((x - a) / d) ^ 3 - ((x - a) / d)\<^sup>2) * (d * end_slope s))"
    by (rule ext) (simp add: hermite_poly_def Let_def a_def d_def mult.assoc)
  have "(hermite_poly s has_real_derivative end_slope s) (at (a + d))"
    using hermite_shape_deriv [OF d0, where x = "a + d" and a = a and A = "start_r (hermite_params s)"
        and B = "d * start_slope s" and C = "end_r (hermite_params s)" and D = "d * end_slope s"] d0
    by (simp add: f)
  then show ?thesis by (simp add: e)
qed

text \<open>
  Claim C8. For a Hermite section with \<open>start_x < end_x\<close>, the radius function returns
  exactly \<open>start_r\<close> at \<open>start_x\<close> and \<open>end_r\<close> at \<open>end_x\<close>, and its derivative with
  respect to \<open>x\<close> is \<open>start_slope\<close> at \<open>start_x\<close> and \<open>end_slope\<close> at \<open>end_x\<close>.
\<close>

theorem Hermite_endpoints_and_slopes:
  assumes "start_x (hermite_params s) < end_x (hermite_params s)"
  shows "Hermite_r_func s (start_x (hermite_params s)) = Fin (start_r (hermite_params s))
       \<and> Hermite_r_func s (end_x (hermite_params s)) = Fin (end_r (hermite_params s))
       \<and> (\<exists>f. (\<forall>x. Hermite_r_func s x = Fin (f x))
             \<and> (f has_real_derivative start_slope s) (at (start_x (hermite_params s)))
             \<and> (f has_real_derivative end_slope s) (at (end_x (hermite_params s))))"
proof -
  have ne: "start_x (hermite_params s) \<noteq> end_x (hermite_params s)" using assms by simp
  have a: "Hermite_r_func s (start_x (hermite_params s)) = Fin (start_r (hermite_params s))"
    using ne by (simp add: Hermite_r_func_Fin hermite_poly_def)
  have b: "Hermite_r_func s (end_x (hermite_params s)) = Fin (end_r (hermite_params s))"
    using ne by (simp add: Hermite_r_func_Fin hermite_poly_def)
  show ?thesis
    using a b hermite_poly_deriv_start [OF ne] hermite_poly_deriv_end [OF ne]
      Hermite_r_func_Fin [OF ne] by blast
qed

theorem Hermite_endpoints_and_slopes_witness:
  "Hermite_r_func hermite_example 0 = Fin 1
   \<and> Hermite_r_func hermite_example 2 = Fin 3
   \<and> (\<exists>f. (\<forall>x. Hermite_r_func hermite_example x = Fin (f x))
         \<and> (f has_real_derivative 1 / 2) (at 0)
         \<and> (f has_real_derivative 1 / 4) (at 2))"
  using Hermite_endpoints_and_slopes [of hermite_example]
  by (simp add: hermite_example_def)

section \<open>Winding of the wedge faces\<close>

text \<open>The index arrays that \<^verbatim>\<open>_wedge_points\<close> returns for plane 1 are those of plane 0 under
  \<open>plane_swap\<close>.\<close>

lemma plane_swap_index_arrays:
  assumes "wedge_points x r th = (verts, a0, w0, a1, w1)"
  shows "a1 = map plane_swap a0" and "w1 = map plane_swap w0"
proof -
  let ?n = "length (zip x r)"
  have a0: "a0 = map (\<lambda>i. 4 * i) [0..<?n]" and w0: "w0 = map (\<lambda>i. 4 * i + 1) [0..<?n]"
    and a1: "a1 = map (\<lambda>i. 4 * i + 2) [0..<?n]" and w1: "w1 = map (\<lambda>i. 4 * i + 3) [0..<?n]"
    using assms unfolding wedge_points_eq by simp_all
  show "a1 = map plane_swap a0" unfolding a0 a1 by (simp add: plane_swap_def)
  show "w1 = map plane_swap w0" unfolding w0 w1 by (simp add: plane_swap_def)
qed

lemma generate_contour_lengths:
  assumes "generate_contour nz n = Inr (xs, rs)"
  shows "length rs = length xs"
proof -
  obtain xc rc xd rd where c: "convergent_section nz (py_int (real_of_int n * 0.4)) = Inr (xc, rc)"
    and d: "divergent_section nz (n - py_int (real_of_int n * 0.4)) = Inr (xd, rd)"
    and xs: "xs = xc @ drop 1 xd" and rs: "rs = rc @ drop 1 rd"
    using assms by (auto simp: generate_contour_def Let_def split: sum.splits)
  have rc: "rc = map (convergent_r nz) xc"
    using c by (auto simp: convergent_section_def split: sum.splits)
  have rd: "rd = map (divergent_r nz) xd"
    using d by (auto simp: divergent_section_def split: sum.splits)
  show ?thesis by (simp add: xs rs rc rd)
qed

lemma generate_block_mesh_dict_Inr:
  assumes "generate_block_mesh_dict nz ps = Inr m"
  shows "\<exists>x r. get_outer_wall nz (n_axial ps + 1) = Inr (x, r)
           \<and> length r = length x \<and> x \<noteq> [] \<and> m = contour_mesh ps x r"
proof (cases "get_outer_wall nz (n_axial ps + 1)")
  case (Inl e)
  then show ?thesis using assms by (simp add: generate_block_mesh_dict_def)
next
  case (Inr c)
  obtain x r where c: "c = (x, r)" by (cases c)
  have g: "get_outer_wall nz (n_axial ps + 1) = Inr (x, r)" using Inr c by simp
  then have "generate_contour nz (n_axial ps + 1) = Inr (x, r)"
    by (simp add: get_outer_wall_def)
  then have l: "length r = length x" by (rule generate_contour_lengths)
  show ?thesis
    using assms generate_block_mesh_dict_eq [OF g l] l g by (auto split: if_splits)
qed

lemma rotations_of_four:
  "rotate 0 [a, b, c, d] = [a, b, c, d]"
  "rotate 1 [a, b, c, d] = [b, c, d, a]"
  "rotate 2 [a, b, c, d] = [c, d, a, b]"
  "rotate 3 [a, b, c, d] = [d, a, b, c]"
  by (simp_all add: eval_nat_numeral)

lemma wedge0_flux:
  assumes "V ! a = (Fin x0, Fin 0, Fin 0)" and "V ! b = (Fin x1, Fin 0, Fin 0)"
    and "V ! c = (Fin x1, Fin (r1 * co), Fin (- (r1 * si)))"
    and "V ! d = (Fin x0, Fin (r0 * co), Fin (- (r0 * si)))"
    and "V ! e = (Fin x0, Fin 0, Fin 0)" and "V ! f = (Fin x1, Fin 0, Fin 0)"
    and "V ! g = (Fin x1, Fin (r1 * co), Fin (r1 * si))"
    and "V ! h = (Fin x0, Fin (r0 * co), Fin (r0 * si))"
    and "hex blk = [a, b, c, d, e, f, g, h]"
  shows "face_flux V blk [a, b, c, d] = Fin (- ((x1 - x0) * co * si * (r0 + r1)\<^sup>2 / 4))"
  unfolding face_flux_def face_normal_def assms(9)
  by (simp add: assms(1-8) centroid_def vsub_def vadd_def cross_def dot_def)
     (simp add: field_simps power2_eq_square)

lemma wedge1_flux:
  assumes "V ! a = (Fin x0, Fin 0, Fin 0)" and "V ! b = (Fin x1, Fin 0, Fin 0)"
    and "V ! c = (Fin x1, Fin (r1 * co), Fin (- (r1 * si)))"
    and "V ! d = (Fin x0, Fin (r0 * co), Fin (- (r0 * si)))"
    and "V ! e = (Fin x0, Fin 0, Fin 0)" and "V ! f = (Fin x1, Fin 0, Fin 0)"
    and "V ! g = (Fin x1, Fin (r1 * co), Fin (r1 * si))"
    and "V ! h = (Fin x0, Fin (r0 * co), Fin (r0 * si))"
    and "hex blk = [a, b, c, d, e, f, g, h]"
  shows "face_flux V blk [f, e, h, g] = Fin (- ((x1 - x0) * co * si * (r0 + r1)\<^sup>2 / 4))"
  unfolding face_flux_def face_normal_def assms(9)
  by (simp add: assms(1-8) centroid_def vsub_def vadd_def cross_def dot_def)
     (simp add: field_simps power2_eq_square)

lemma station_vertices:
  assumes "length r = length x" and "i < length x" and "r ! i = Fin a"
  shows "vertices (contour_mesh ps x r) ! (4 * i) = (Fin (x ! i), Fin 0, Fin 0)"
    and "vertices (contour_mesh ps x r) ! (4 * i + 1)
           = (Fin (x ! i), Fin (a * cos (0.5 * deg2rad (wedge_angle_deg ps))),
              Fin (- (a * sin (0.5 * deg2rad (wedge_angle_deg ps)))))"
    and "vertices (contour_mesh ps x r) ! (4 * i + 2) = (Fin (x ! i), Fin 0, Fin 0)"
    and "vertices (contour_mesh ps x r) ! (4 * i + 3)
           = (Fin (x ! i), Fin (a * cos (0.5 * deg2rad (wedge_angle_deg ps))),
              Fin (a * sin (0.5 * deg2rad (wedge_angle_deg ps))))"
proof -
  define c where "c = cos (0.5 * deg2rad (wedge_angle_deg ps))"
  define s where "s = sin (0.5 * deg2rad (wedge_angle_deg ps))"
  define V where "V = concat (map (station_verts c s) (zip x r))"
  have v: "vertices (contour_mesh ps x r) = V"
    by (simp add: contour_mesh_def Let_def V_def c_def s_def)
  have i: "i < length (zip x r)" using assms by simp
  have z: "zip x r ! i = (x ! i, Fin a)" using assms by simp
  have e: "V ! (4 * i + k) = station_verts c s (x ! i, Fin a) ! k" if "k < 4" for k
    unfolding V_def z [symmetric] using i that by (rule nth_concat_stations)
  show "vertices (contour_mesh ps x r) ! (4 * i) = (Fin (x ! i), Fin 0, Fin 0)"
    unfolding v using e [of 0] by (simp add: station_verts_def)
  show "vertices (contour_mesh ps x r) ! (4 * i + 1)
           = (Fin (x ! i), Fin (a * cos (0.5 * deg2rad (wedge_angle_deg ps))),
              Fin (- (a * sin (0.5 * deg2rad (wedge_angle_deg ps)))))"
    unfolding v c_def [symmetric] s_def [symmetric] using e [of 1] by (simp add: station_verts_def)
  show "vertices (contour_mesh ps x r) ! (4 * i + 2) = (Fin (x ! i), Fin 0, Fin 0)"
    unfolding v using e [of 2] by (simp add: station_verts_def)
  show "vertices (contour_mesh ps x r) ! (4 * i + 3)
           = (Fin (x ! i), Fin (a * cos (0.5 * deg2rad (wedge_angle_deg ps))),
              Fin (a * sin (0.5 * deg2rad (wedge_angle_deg ps))))"
    unfolding v c_def [symmetric] s_def [symmetric] using e [of 3]
    by (simp add: station_verts_def eval_nat_numeral)
qed

lemma segment_indices:
  assumes "i + 1 < length x"
  shows "hex (blocks (contour_mesh ps x r) ! i)
           = [4 * i, 4 * (i + 1), 4 * (i + 1) + 1, 4 * i + 1,
              4 * i + 2, 4 * (i + 1) + 2, 4 * (i + 1) + 3, 4 * i + 3]"
    and "wedge0_faces (contour_mesh ps x r) ! i = [4 * i, 4 * (i + 1), 4 * (i + 1) + 1, 4 * i + 1]"
    and "wedge1_faces (contour_mesh ps x r) ! i
           = [4 * (i + 1) + 2, 4 * i + 2, 4 * i + 3, 4 * (i + 1) + 3]"
proof -
  have i: "i < length x - 1" using assms by simp
  show "hex (blocks (contour_mesh ps x r) ! i)
           = [4 * i, 4 * (i + 1), 4 * (i + 1) + 1, 4 * i + 1,
              4 * i + 2, 4 * (i + 1) + 2, 4 * (i + 1) + 3, 4 * i + 3]"
    using i by (simp add: contour_mesh_def Let_def segment_block_def)
  show "wedge0_faces (contour_mesh ps x r) ! i = [4 * i, 4 * (i + 1), 4 * (i + 1) + 1, 4 * i + 1]"
    using i by (simp add: contour_mesh_def Let_def segment_faces_def)
  show "wedge1_faces (contour_mesh ps x r) ! i
           = [4 * (i + 1) + 2, 4 * i + 2, 4 * i + 3, 4 * (i + 1) + 3]"
    using i by (simp add: contour_mesh_def Let_def segment_faces_def)
qed

lemma segment_wedge_flux:
  assumes "length r = length x" and "i + 1 < length x"
    and "r ! i = Fin r0" and "r ! (i + 1) = Fin r1"
  shows "face_flux (vertices (contour_mesh ps x r)) (blocks (contour_mesh ps x r) ! i)
           (wedge0_faces (contour_mesh ps x r) ! i)
         = Fin (- ((x ! (i + 1) - x ! i) * cos (0.5 * deg2rad (wedge_angle_deg ps))
                   * sin (0.5 * deg2rad (wedge_angle_deg ps)) * (r0 + r1)\<^sup>2 / 4))"
    and "face_flux (vertices (contour_mesh ps x r)) (blocks (contour_mesh ps x r) ! i)
           (wedge1_faces (contour_mesh ps x r) ! i)
         = Fin (- ((x ! (i + 1) - x ! i) * cos (0.5 * deg2rad (wedge_angle_deg ps))
                   * sin (0.5 * deg2rad (wedge_angle_deg ps)) * (r0 + r1)\<^sup>2 / 4))"
proof -
  have i: "i < length x" using assms(2) by simp
  note p = station_vertices [OF assms(1) i assms(3), of ps]
  note q = station_vertices [OF assms(1) assms(2) assms(4), of ps]
  note h = segment_indices [OF assms(2), of ps r]
  show "face_flux (vertices (contour_mesh ps x r)) (blocks (contour_mesh ps x r) ! i)
           (wedge0_faces (contour_mesh ps x r) ! i)
         = Fin (- ((x ! (i + 1) - x ! i) * cos (0.5 * deg2rad (wedge_angle_deg ps))
                   * sin (0.5 * deg2rad (wedge_angle_deg ps)) * (r0 + r1)\<^sup>2 / 4))"
    unfolding h(2)
    by (rule wedge0_flux [OF p(1) q(1) q(2) p(2) p(3) q(3) q(4) p(4) h(1)])
  show "face_flux (vertices (contour_mesh ps x r)) (blocks (contour_mesh ps x r) ! i)
           (wedge1_faces (contour_mesh ps x r) ! i)
         = Fin (- ((x ! (i + 1) - x ! i) * cos (0.5 * deg2rad (wedge_angle_deg ps))
                   * sin (0.5 * deg2rad (wedge_angle_deg ps)) * (r0 + r1)\<^sup>2 / 4))"
    unfolding h(3)
    by (rule wedge1_flux [OF p(1) q(1) q(2) p(2) p(3) q(3) q(4) p(4) h(1)])
qed

lemma half_wedge_angle:
  assumes "0 < d" and "d < 180"
  shows "0 < cos (0.5 * deg2rad d)" and "0 < sin (0.5 * deg2rad d)"
proof -
  have a: "0 < 0.5 * deg2rad d" using assms by (simp add: deg2rad_def)
  have "d * pi < 180 * pi" using assms by simp
  then have b: "0.5 * deg2rad d < pi / 2" by (simp add: deg2rad_def)
  show "0 < cos (0.5 * deg2rad d)" using a b by (intro cos_gt_zero) simp_all
  have "0.5 * deg2rad d < pi" using b pi_gt_zero by linarith
  then show "0 < sin (0.5 * deg2rad d)" using a by (intro sin_gt_zero) simp_all
qed

lemma one_block_vertices:
  "vertices (contour_mesh ps [x0, x1] [Fin r0, Fin r1]) =
     (let c = cos (0.5 * deg2rad (wedge_angle_deg ps)); s = sin (0.5 * deg2rad (wedge_angle_deg ps))
      in [(Fin x0, Fin 0, Fin 0), (Fin x0, Fin (r0 * c), Fin (- r0 * s)),
          (Fin x0, Fin 0, Fin 0), (Fin x0, Fin (r0 * c), Fin (r0 * s)),
          (Fin x1, Fin 0, Fin 0), (Fin x1, Fin (r1 * c), Fin (- r1 * s)),
          (Fin x1, Fin 0, Fin 0), (Fin x1, Fin (r1 * c), Fin (r1 * s))])"
  by (simp add: contour_mesh_def Let_def station_verts_def)

lemma one_block_faces:
  "hex (blocks (contour_mesh ps [x0, x1] [Fin r0, Fin r1]) ! 0) = [0, 4, 5, 1, 2, 6, 7, 3]"
  "inlet_faces (contour_mesh ps [x0, x1] [Fin r0, Fin r1]) ! 0 = [0, 2, 3, 1]"
  "outlet_faces (contour_mesh ps [x0, x1] [Fin r0, Fin r1]) ! 0 = [4, 5, 7, 6]"
  "wall_faces (contour_mesh ps [x0, x1] [Fin r0, Fin r1]) ! 0 = [1, 5, 7, 3]"
  "wedge0_faces (contour_mesh ps [x0, x1] [Fin r0, Fin r1]) ! 0 = [0, 4, 5, 1]"
  "wedge1_faces (contour_mesh ps [x0, x1] [Fin r0, Fin r1]) ! 0 = [6, 2, 3, 7]"
  by (simp_all add: contour_mesh_def Let_def segment_block_def segment_faces_def)

lemma one_block_wedge0_flux:
  "face_flux (vertices (contour_mesh ps [x0, x1] [Fin r0, Fin r1]))
      (blocks (contour_mesh ps [x0, x1] [Fin r0, Fin r1]) ! 0)
      (wedge0_faces (contour_mesh ps [x0, x1] [Fin r0, Fin r1]) ! 0)
   = Fin (- ((x1 - x0) * cos (0.5 * deg2rad (wedge_angle_deg ps))
             * sin (0.5 * deg2rad (wedge_angle_deg ps)) * (r0 + r1)\<^sup>2 / 4))"
  unfolding face_flux_def face_normal_def one_block_faces one_block_vertices Let_def
  by (simp add: centroid_def vsub_def vadd_def cross_def dot_def eval_nat_numeral)
     (simp add: field_simps power2_eq_square)

lemma one_block_wedge1_flux:
  "face_flux (vertices (contour_mesh ps [x0, x1] [Fin r0, Fin r1]))
      (blocks (contour_mesh ps [x0, x1] [Fin r0, Fin r1]) ! 0)
      (wedge1_faces (contour_mesh ps [x0, x1] [Fin r0, Fin r1]) ! 0)
   = Fin (- ((x1 - x0) * cos (0.5 * deg2rad (wedge_angle_deg ps)) * sin (0.5 * deg2rad (wedge_angle_deg ps)) * (r0 + r1)\<^sup>2 / 4))"
  unfolding face_flux_def face_normal_def one_block_faces one_block_vertices Let_def
  by (simp add: centroid_def vsub_def vadd_def cross_def dot_def eval_nat_numeral)
     (simp add: field_simps power2_eq_square)

lemma one_block_inlet_flux:
  "face_flux (vertices (contour_mesh ps [x0, x1] [Fin r0, Fin r1]))
      (blocks (contour_mesh ps [x0, x1] [Fin r0, Fin r1]) ! 0)
      (inlet_faces (contour_mesh ps [x0, x1] [Fin r0, Fin r1]) ! 0)
   = Fin ((x1 - x0) * cos (0.5 * deg2rad (wedge_angle_deg ps)) * sin (0.5 * deg2rad (wedge_angle_deg ps)) * r0\<^sup>2)"
  unfolding face_flux_def face_normal_def one_block_faces one_block_vertices Let_def
  by (simp add: centroid_def vsub_def vadd_def cross_def dot_def eval_nat_numeral)
     (simp add: field_simps power2_eq_square)

lemma one_block_outlet_flux:
  "face_flux (vertices (contour_mesh ps [x0, x1] [Fin r0, Fin r1]))
      (blocks (contour_mesh ps [x0, x1] [Fin r0, Fin r1]) ! 0)
      (outlet_faces (contour_mesh ps [x0, x1] [Fin r0, Fin r1]) ! 0)
   = Fin ((x1 - x0) * cos (0.5 * deg2rad (wedge_angle_deg ps)) * sin (0.5 * deg2rad (wedge_angle_deg ps)) * r1\<^sup>2)"
  unfolding face_flux_def face_normal_def one_block_faces one_block_vertices Let_def
  by (simp add: centroid_def vsub_def vadd_def cross_def dot_def eval_nat_numeral)
     (simp add: field_simps power2_eq_square)

lemma contour_three:
  "contour_x nz 3 = [- L_convergent nz, L_divergent nz]"
  "contour_r nz 3 = [convergent_r nz (- L_convergent nz), divergent_r nz (L_divergent nz)]"
  by (simp_all add: contour_x_def contour_r_def linspace_pts_def eval_nat_numeral)




section \<open>The vertices of a station\<close>

lemma card_three_of_four:
  assumes "a \<noteq> b" "a \<noteq> c" "b \<noteq> c"
  shows "card {a, b, a, c} = 3"
proof -
  have "{a, b, a, c} = {a, b, c}" by auto
  then show ?thesis using assms by (simp add: card_insert_if)
qed

text \<open>
  Claim C10 fails as stated: a station of radius 0 has four stored vertices with one
  coordinate, not three.
\<close>

theorem wedge_points_zero_radius_counterexample:
  "length (fst (wedge_points [0] [Fin 0] (pi / 72))) = 4
   \<and> set (fst (wedge_points [0] [Fin 0] (pi / 72))) = {(Fin 0, Fin 0, Fin 0)}
   \<and> card (set (fst (wedge_points [0] [Fin 0] (pi / 72)))) = 1"
  by (simp add: wedge_points_eq station_verts_def)

text \<open>
  Claim C10, amended. \<^verbatim>\<open>_wedge_points\<close> stores four vertices for each of the
  \<open>min (len x) (len r)\<close> stations; every index in the four index arrays is in range of the
  vertex list; the two axis vertices of a station are both \<open>(x, 0, 0)\<close>; and the four vertices
  of a station have exactly three distinct coordinates when its radius is finite and not
  zero and \<open>sin theta_half\<close> is not zero.
\<close>

theorem wedge_points_stations:
  assumes "wedge_points x r th = (verts, a0, w0, a1, w1)"
  shows "length verts = 4 * min (length x) (length r)
       \<and> length a0 = min (length x) (length r) \<and> length w0 = min (length x) (length r)
       \<and> length a1 = min (length x) (length r) \<and> length w1 = min (length x) (length r)
       \<and> list_all (\<lambda>k. k < length verts) (a0 @ w0 @ a1 @ w1)
       \<and> (\<forall>i < min (length x) (length r).
             verts ! (a0 ! i) = (Fin (x ! i), Fin 0, Fin 0)
           \<and> verts ! (a1 ! i) = (Fin (x ! i), Fin 0, Fin 0)
           \<and> ((\<exists>v. r ! i = Fin v \<and> v \<noteq> 0) \<and> sin th \<noteq> 0 \<longrightarrow>
                card {verts ! (a0 ! i), verts ! (w0 ! i), verts ! (a1 ! i), verts ! (w1 ! i)} = 3))"
proof -
  define n where "n = min (length x) (length r)"
  have z: "length (zip x r) = n" by (simp add: n_def)
  have v: "verts = concat (map (station_verts (cos th) (sin th)) (zip x r))"
    and a0: "a0 = map (\<lambda>i. 4 * i) [0..<n]" and w0: "w0 = map (\<lambda>i. 4 * i + 1) [0..<n]"
    and a1: "a1 = map (\<lambda>i. 4 * i + 2) [0..<n]" and w1: "w1 = map (\<lambda>i. 4 * i + 3) [0..<n]"
    using assms by (simp_all add: wedge_points_eq n_def)
  have lv: "length verts = 4 * n" by (simp add: v n_def)
  have rng: "list_all (\<lambda>k. k < length verts) (a0 @ w0 @ a1 @ w1)"
    by (auto simp: lv a0 w0 a1 w1 list_all_iff)
  have st: "verts ! (a0 ! i) = (Fin (x ! i), Fin 0, Fin 0)
           \<and> verts ! (a1 ! i) = (Fin (x ! i), Fin 0, Fin 0)
           \<and> ((\<exists>v. r ! i = Fin v \<and> v \<noteq> 0) \<and> sin th \<noteq> 0 \<longrightarrow>
                card {verts ! (a0 ! i), verts ! (w0 ! i), verts ! (a1 ! i), verts ! (w1 ! i)} = 3)"
    if i: "i < n" for i
  proof -
    have iz: "i < length (zip x r)" using i z by simp
    have zi: "zip x r ! i = (x ! i, r ! i)" using i by (simp add: n_def)
    have p0: "verts ! (a0 ! i) = (Fin (x ! i), Fin 0, Fin 0)"
      using nth_concat_stations [OF iz, of 0 "cos th" "sin th"] i
      by (simp add: v a0 zi station_verts_def eval_nat_numeral)
    have p1: "verts ! (w0 ! i) = (Fin (x ! i), r ! i * Fin (cos th), (- (r ! i)) * Fin (sin th))"
      using nth_concat_stations [OF iz, of 1 "cos th" "sin th"] i
      by (simp add: v w0 zi station_verts_def eval_nat_numeral)
    have p2: "verts ! (a1 ! i) = (Fin (x ! i), Fin 0, Fin 0)"
      using nth_concat_stations [OF iz, of 2 "cos th" "sin th"] i
      by (simp add: v a1 zi station_verts_def eval_nat_numeral)
    have p3: "verts ! (w1 ! i) = (Fin (x ! i), r ! i * Fin (cos th), r ! i * Fin (sin th))"
      using nth_concat_stations [OF iz, of 3 "cos th" "sin th"] i
      by (simp add: v w1 zi station_verts_def eval_nat_numeral)
    have "card {verts ! (a0 ! i), verts ! (w0 ! i), verts ! (a1 ! i), verts ! (w1 ! i)} = 3"
      if fin: "\<exists>v. r ! i = Fin v \<and> v \<noteq> 0" and sn: "sin th \<noteq> 0"
    proof -
      obtain ri where ri: "r ! i = Fin ri" "ri \<noteq> 0" using fin by blast
      show ?thesis
        unfolding p0 p1 p2 p3 ri(1)
        by (rule card_three_of_four) (use ri(2) sn in simp_all)
    qed
    then show ?thesis using p0 p2 by blast
  qed
  have len: "length a0 = n" "length w0 = n" "length a1 = n" "length w1 = n"
    by (simp_all add: a0 w0 a1 w1)
  have every: "\<forall>i<n. verts ! (a0 ! i) = (Fin (x ! i), Fin 0, Fin 0)
           \<and> verts ! (a1 ! i) = (Fin (x ! i), Fin 0, Fin 0)
           \<and> ((\<exists>v. r ! i = Fin v \<and> v \<noteq> 0) \<and> sin th \<noteq> 0 \<longrightarrow>
                card {verts ! (a0 ! i), verts ! (w0 ! i), verts ! (a1 ! i), verts ! (w1 ! i)} = 3)"
    using st by blast
  show ?thesis
    unfolding n_def [symmetric] using lv len rng every by blast
qed

theorem wedge_points_stations_witness:
  "\<exists>verts a0 w0 a1 w1.
     wedge_points [0, 1] [Fin 1, Fin 2] (pi / 6) = (verts, a0, w0, a1, w1)
     \<and> length verts = 8
     \<and> list_all (\<lambda>k. k < length verts) (a0 @ w0 @ a1 @ w1)
     \<and> verts ! (a0 ! 0) = verts ! (a1 ! 0)
     \<and> card {verts ! (a0 ! 0), verts ! (w0 ! 0), verts ! (a1 ! 0), verts ! (w1 ! 0)} = 3"
proof -
  obtain verts a0 w0 a1 w1 where
    e: "wedge_points [0, 1] [Fin 1, Fin 2] (pi / 6) = (verts, a0, w0, a1, w1)"
    by (metis prod_cases5)
  have s: "sin (pi / 6) \<noteq> 0" by (simp add: sin_30)
  show ?thesis
    using wedge_points_stations [OF e] e s by (auto simp: sin_30)
qed


end
